theory Spec2Isabelle
  imports Complex_Main "HOL-Library.Sublist" "HOL-Library.AList"
begin

section \<open>Errors and dynamic values\<close>

text \<open>
  Go errors are values built with \<^verbatim>\<open>fmt.Errorf\<close>; the model keeps one constructor per
  kind of failure site and drops the message text. Wrapping (\<^verbatim>\<open>%w\<close>) keeps the
  wrapped error.
\<close>

datatype error =
    InvalidArgument
  | StoreUnavailable
  | DeviceNotFound
  | MessageEmpty
  | NoMessages
  | TooManyMessages nat
  | TransportFailed
  | BadStatus int
  | BadResponse
  | ApiErrors
  | PushFailed
  | NoResponseData
  | MaxRetriesExceeded
  | NoPushTokens
  | NoValidPushTokens
  | InvalidToken string
  | SliceBoundsOutOfRange

text \<open>
  A value of type \<^verbatim>\<open>interface{}\<close>, with one constructor for each dynamic type the
  code tells apart. \<open>JNil\<close> is the nil interface. A \<^verbatim>\<open>map[string]interface{}\<close> is an
  association list read with \<open>map_of\<close>; a \<^verbatim>\<open>float64\<close> carries its (rational) value.
\<close>

datatype jvalue =
    JNil
  | JString string
  | JBool bool
  | JInt64 int
  | JInt int
  | JFloat64 rat
  | JInt32 int
  | JInt16 int
  | JInt8 int
  | JMap "(string \<times> jvalue) list"
  | JArray "jvalue list"

section \<open>Expo adapter: token syntax\<close>

text \<open>
  \<^verbatim>\<open>ValidateToken\<close> of \<^verbatim>\<open>service/expo_service\<close>. A Go string is a byte sequence and
  \<^verbatim>\<open>len\<close> counts bytes; \<open>string\<close> is a list of 8-bit characters. The slices
  \<^verbatim>\<open>token[:18]\<close> and \<^verbatim>\<open>token[:14]\<close> are only evaluated behind the \<^verbatim>\<open>len(token) > 20\<close>
  guard of the short-circuit conjunction, so they never go out of range.
\<close>

definition ValidateToken :: "string \<Rightarrow> bool" where
  "ValidateToken token =
     (if length token < 10 then False
      else 20 < length token \<and>
           (take 18 token = ''ExponentPushToken['' \<or> take 14 token = ''ExpoPushToken[''))"

section \<open>The store: package pebble-service\<close>

text \<open>
  Each keyspace is its own database, keyed by the logical id; the model keeps the decoded
  JSON value under each key. Field names carry a prefix per struct, since record fields
  share one name space. Wall-clock stamps (\<^verbatim>\<open>UpdatedAt\<close>, \<^verbatim>\<open>BlockedAt\<close>, \<^verbatim>\<open>NotifiedAt\<close>)
  carry no behaviour and are left out. A \<^verbatim>\<open>map[string]string\<close> is an association list read
  with \<open>map_of\<close>, written with \<open>AList.update\<close> and \<open>AList.delete\<close>; a nil map is the empty
  list (reading a nil map is defined in Go, and the code allocates before it writes).

  \<open>unavailable\<close> says which collections cannot be opened: there \<^verbatim>\<open>getCollectionDB\<close>
  returns its error. Failures of a single read or write are not modelled, and the point
  reads find values that decode.
\<close>

record UserPushTokens =
  upt_MetaID :: string
  upt_Tokens :: "(string \<times> string) list"

record DeviceInfo =
  dev_DeviceID :: string
  dev_Platform :: string
  dev_MetaID :: string

record BlockedChat =
  bc_UserID :: string
  bc_ChatID :: string
  bc_ChatType :: string
  bc_Reason :: string

record UserBlockedChats =
  ubc_UserID :: string
  ubc_BlockedChats :: "BlockedChat list"

record NotifiedPin =
  np_PinID :: string

definition CollectionUserTokens :: string where
  "CollectionUserTokens = ''user_tokens''"

definition CollectionDevices :: string where
  "CollectionDevices = ''devices''"

definition CollectionBlockedChats :: string where
  "CollectionBlockedChats = ''blocked_chats''"

definition CollectionNotifiedPins :: string where
  "CollectionNotifiedPins = ''notified_pins''"

record PebbleService =
  user_tokens :: "string \<rightharpoonup> UserPushTokens"
  devices :: "string \<rightharpoonup> DeviceInfo"
  blocked_chats :: "string \<rightharpoonup> UserBlockedChats"
  notified_pins :: "string \<rightharpoonup> NotifiedPin"
  unavailable :: "string \<Rightarrow> bool"

definition getUserBlockedChatsFromDB :: "PebbleService \<Rightarrow> string \<Rightarrow> UserBlockedChats" where
  "getUserBlockedChatsFromDB ps userId =
     (case blocked_chats ps userId of
        None \<Rightarrow> \<lparr>ubc_UserID = userId, ubc_BlockedChats = []\<rparr>
      | Some v \<Rightarrow> v)"

definition SaveUserTokens :: "PebbleService \<Rightarrow> UserPushTokens \<Rightarrow> error + PebbleService" where
  "SaveUserTokens ps userTokens =
     (if upt_MetaID userTokens = [] then Inl InvalidArgument
      else if unavailable ps CollectionUserTokens then Inl StoreUnavailable
      else Inr (ps\<lparr>user_tokens := (user_tokens ps)(upt_MetaID userTokens \<mapsto> userTokens)\<rparr>))"

definition GetUserTokens :: "PebbleService \<Rightarrow> string \<Rightarrow> error + UserPushTokens" where
  "GetUserTokens ps metaId =
     (if metaId = [] then Inl InvalidArgument
      else if unavailable ps CollectionUserTokens then Inl StoreUnavailable
      else case user_tokens ps metaId of
             None \<Rightarrow> Inr \<lparr>upt_MetaID = metaId, upt_Tokens = []\<rparr>
           | Some v \<Rightarrow> Inr v)"

definition SaveDeviceInfo :: "PebbleService \<Rightarrow> DeviceInfo \<Rightarrow> error + PebbleService" where
  "SaveDeviceInfo ps deviceInfo =
     (if dev_DeviceID deviceInfo = [] then Inl InvalidArgument
      else if dev_Platform deviceInfo = [] then Inl InvalidArgument
      else if dev_MetaID deviceInfo = [] then Inl InvalidArgument
      else if unavailable ps CollectionDevices then Inl StoreUnavailable
      else Inr (ps\<lparr>devices := (devices ps)(dev_DeviceID deviceInfo \<mapsto> deviceInfo)\<rparr>))"

definition GetDeviceInfo :: "PebbleService \<Rightarrow> string \<Rightarrow> error + DeviceInfo" where
  "GetDeviceInfo ps deviceId =
     (if deviceId = [] then Inl InvalidArgument
      else if unavailable ps CollectionDevices then Inl StoreUnavailable
      else case devices ps deviceId of
             None \<Rightarrow> Inl DeviceNotFound
           | Some d \<Rightarrow> Inr d)"

text \<open>
  \<^verbatim>\<open>SetUserToken\<close>, step 1 for a token that already has a device binding: when the binding
  belongs to another user, that user's entry for the platform is removed if it holds this
  token (a failure to read or to save the old user's tokens is logged and ignored); the
  store after this scrub is returned.
\<close>

definition scrubOldOwner ::
  "PebbleService \<Rightarrow> DeviceInfo \<Rightarrow> string \<Rightarrow> string \<Rightarrow> string \<Rightarrow> PebbleService" where
  "scrubOldOwner ps existingDevice metaId platform token =
     (if dev_MetaID existingDevice \<noteq> metaId then
        (case GetUserTokens ps (dev_MetaID existingDevice) of
           Inl err \<Rightarrow> ps
         | Inr oldUserTokens \<Rightarrow>
             (if map_of (upt_Tokens oldUserTokens) platform = Some token then
                (case SaveUserTokens ps
                        (oldUserTokens\<lparr>upt_Tokens :=
                           AList.delete platform (upt_Tokens oldUserTokens)\<rparr>) of
                   Inl err \<Rightarrow> ps
                 | Inr ps' \<Rightarrow> ps')
              else ps))
      else ps)"

text \<open>
  Step 1 as a whole: rewrite the binding of an existing device, or create it. The result
  is the store so far and the error, if any, that makes \<^verbatim>\<open>SetUserToken\<close> return early.
\<close>

definition bindDevice ::
  "PebbleService \<Rightarrow> string \<Rightarrow> string \<Rightarrow> string \<Rightarrow> PebbleService \<times> error option" where
  "bindDevice ps metaId platform token =
     (case GetDeviceInfo ps token of
        Inr existingDevice \<Rightarrow>
          (let ps1 = scrubOldOwner ps existingDevice metaId platform token in
           case SaveDeviceInfo ps1
                  (existingDevice\<lparr>dev_MetaID := metaId, dev_Platform := platform\<rparr>) of
             Inl err \<Rightarrow> (ps1, Some err)
           | Inr ps2 \<Rightarrow> (ps2, None))
      | Inl err \<Rightarrow>
          (case SaveDeviceInfo ps
                  \<lparr>dev_DeviceID = token, dev_Platform = platform, dev_MetaID = metaId\<rparr> of
             Inl err \<Rightarrow> (ps, Some err)
           | Inr ps2 \<Rightarrow> (ps2, None)))"

text \<open>
  \<^verbatim>\<open>PebbleService.SetUserToken\<close>. It can fail after it has written: the result is the
  store as it was left and the error returned (\<open>None\<close> for nil).
\<close>

definition SetUserToken ::
  "PebbleService \<Rightarrow> string \<Rightarrow> string \<Rightarrow> string \<Rightarrow> PebbleService \<times> error option" where
  "SetUserToken ps metaId platform token =
     (if metaId = [] \<or> platform = [] \<or> token = [] then (ps, Some InvalidArgument)
      else
        (case bindDevice ps metaId platform token of
           (ps2, Some err) \<Rightarrow> (ps2, Some err)
         | (ps2, None) \<Rightarrow>
             (case GetUserTokens ps2 metaId of
                Inl err \<Rightarrow> (ps2, Some err)
              | Inr userTokens \<Rightarrow>
                  (case SaveUserTokens ps2
                          (userTokens\<lparr>upt_Tokens :=
                             AList.update platform token (upt_Tokens userTokens)\<rparr>) of
                     Inl err \<Rightarrow> (ps2, Some err)
                   | Inr ps3 \<Rightarrow> (ps3, None)))))"

text \<open>
  \<^verbatim>\<open>GetAllUserTokens\<close>: one point get per id, collected in a map keyed by the id. A user
  whose tokens cannot be read gets an empty record.
\<close>

fun GetAllUserTokens_loop ::
  "PebbleService \<Rightarrow> string list \<Rightarrow> (string \<times> UserPushTokens) list
     \<Rightarrow> (string \<times> UserPushTokens) list" where
  "GetAllUserTokens_loop ps [] result = result"
| "GetAllUserTokens_loop ps (metaId # rest) result =
     GetAllUserTokens_loop ps rest
       (AList.update metaId
          (case GetUserTokens ps metaId of
             Inl err \<Rightarrow> \<lparr>upt_MetaID = metaId, upt_Tokens = []\<rparr>
           | Inr userTokens \<Rightarrow> userTokens)
          result)"

definition GetAllUserTokens ::
  "PebbleService \<Rightarrow> string list \<Rightarrow> (string \<times> UserPushTokens) list" where
  "GetAllUserTokens ps metaIds = GetAllUserTokens_loop ps metaIds []"

text \<open>Blocked chats. The loops over the entries are \<open>list_ex\<close> and \<open>filter\<close>.\<close>

definition AddBlockedChat ::
  "PebbleService \<Rightarrow> string \<Rightarrow> string \<Rightarrow> string \<Rightarrow> string \<Rightarrow> error + PebbleService" where
  "AddBlockedChat ps userId chatId chatType reason =
     (if userId = [] \<or> chatId = [] then Inl InvalidArgument
      else if unavailable ps CollectionBlockedChats then Inl StoreUnavailable
      else
        (let userBlockedChats = getUserBlockedChatsFromDB ps userId in
         if list_ex (\<lambda>blockedChat. bc_ChatID blockedChat = chatId)
              (ubc_BlockedChats userBlockedChats)
         then Inr ps
         else Inr (ps\<lparr>blocked_chats := (blocked_chats ps)(userId \<mapsto>
                userBlockedChats\<lparr>ubc_BlockedChats := ubc_BlockedChats userBlockedChats @
                  [\<lparr>bc_UserID = userId, bc_ChatID = chatId, bc_ChatType = chatType,
                    bc_Reason = reason\<rparr>]\<rparr>)\<rparr>)))"

definition IsBlockedChat :: "PebbleService \<Rightarrow> string \<Rightarrow> string \<Rightarrow> error + bool" where
  "IsBlockedChat ps userId chatId =
     (if userId = [] \<or> chatId = [] then Inl InvalidArgument
      else if unavailable ps CollectionBlockedChats then Inl StoreUnavailable
      else Inr (list_ex (\<lambda>blockedChat. bc_ChatID blockedChat = chatId)
                  (ubc_BlockedChats (getUserBlockedChatsFromDB ps userId))))"

definition RemoveBlockedChat ::
  "PebbleService \<Rightarrow> string \<Rightarrow> string \<Rightarrow> error + PebbleService" where
  "RemoveBlockedChat ps userId chatId =
     (if userId = [] \<or> chatId = [] then Inl InvalidArgument
      else if unavailable ps CollectionBlockedChats then Inl StoreUnavailable
      else
        (let userBlockedChats = getUserBlockedChatsFromDB ps userId;
             newBlockedChats = filter (\<lambda>blockedChat. bc_ChatID blockedChat \<noteq> chatId)
                                 (ubc_BlockedChats userBlockedChats)
         in if \<not> list_ex (\<lambda>blockedChat. bc_ChatID blockedChat = chatId)
                   (ubc_BlockedChats userBlockedChats)
            then Inr ps
            else if newBlockedChats = []
            then Inr (ps\<lparr>blocked_chats := (blocked_chats ps)(userId := None)\<rparr>)
            else Inr (ps\<lparr>blocked_chats := (blocked_chats ps)(userId \<mapsto>
                   userBlockedChats\<lparr>ubc_BlockedChats := newBlockedChats\<rparr>)\<rparr>)))"

text \<open>Notified PINs.\<close>

definition PebbleService_AddNotifiedPin ::
  "PebbleService \<Rightarrow> string \<Rightarrow> error + PebbleService" where
  "PebbleService_AddNotifiedPin ps pinId =
     (if pinId = [] then Inl InvalidArgument
      else if unavailable ps CollectionNotifiedPins then Inl StoreUnavailable
      else Inr (ps\<lparr>notified_pins := (notified_pins ps)(pinId \<mapsto> \<lparr>np_PinID = pinId\<rparr>)\<rparr>))"

definition PebbleService_IsNotifiedPin :: "PebbleService \<Rightarrow> string \<Rightarrow> error + bool" where
  "PebbleService_IsNotifiedPin ps pinId =
     (if pinId = [] then Inl InvalidArgument
      else if unavailable ps CollectionNotifiedPins then Inl StoreUnavailable
      else case notified_pins ps pinId of
             None \<Rightarrow> Inr False
           | Some v \<Rightarrow> Inr True)"

text \<open>
  The package-level functions check their arguments and go through the global service.
  That service is the initialised \<open>PebbleService\<close>: the relay installs its handler only
  after \<^verbatim>\<open>InitializeGlobalService\<close> has succeeded, and the global is never reset.
\<close>

definition IsUserBlockedChat :: "PebbleService \<Rightarrow> string \<Rightarrow> string \<Rightarrow> error + bool" where
  "IsUserBlockedChat ps metaID chatID =
     (if metaID = [] then Inl InvalidArgument
      else if chatID = [] then Inl InvalidArgument
      else IsBlockedChat ps metaID chatID)"

definition AddNotifiedPin :: "PebbleService \<Rightarrow> string \<Rightarrow> error + PebbleService" where
  "AddNotifiedPin ps pinID =
     (if pinID = [] then Inl InvalidArgument
      else PebbleService_AddNotifiedPin ps pinID)"

definition IsNotifiedPin :: "PebbleService \<Rightarrow> string \<Rightarrow> error + bool" where
  "IsNotifiedPin ps pinID =
     (if pinID = [] then Inl InvalidArgument
      else PebbleService_IsNotifiedPin ps pinID)"

text \<open>
  Every value lies under the key that its id field names. The store starts empty and is
  only written by \<^verbatim>\<open>SaveUserTokens\<close> and \<^verbatim>\<open>SaveDeviceInfo\<close>, which use that key.
\<close>

definition store_consistent :: "PebbleService \<Rightarrow> bool" where
  "store_consistent ps =
     ((\<forall>k v. user_tokens ps k = Some v \<longrightarrow> upt_MetaID v = k) \<and>
      (\<forall>k d. devices ps k = Some d \<longrightarrow> dev_DeviceID d = k))"

section \<open>The store: paging over the user tokens\<close>

text \<open>
  Go's \<^verbatim>\<open>int\<close> is a 64-bit two's-complement integer on the platforms the service is built
  for; its arithmetic wraps around silently. \<open>int64\<close> is that wrap-around and \<open>quo\<close> the
  truncating division \<^verbatim>\<open>/\<close>.
\<close>

definition int64 :: "int \<Rightarrow> int" where
  "int64 x = (x + 2 ^ 63) mod 2 ^ 64 - 2 ^ 63"

definition quo :: "int \<Rightarrow> int \<Rightarrow> int" where
  "quo a b = sgn a * sgn b * (\<bar>a\<bar> div \<bar>b\<bar>)"

record PaginatedUserTokens =
  Users :: "UserPushTokens list"
  Total :: int
  Page :: int
  PageSize :: int
  TotalPages :: int
  HasNext :: bool

text \<open>
  \<^verbatim>\<open>GetUserTokensList\<close>. \<open>scan\<close> is what the iterator over the \<^verbatim>\<open>user_tokens\<close> database
  yields from \<^verbatim>\<open>First\<close> to the end, in key order: each key with its value as
  \<^verbatim>\<open>json.Unmarshal\<close> reads it (\<open>None\<close> for a record that does not parse, which the loop
  skips). \<open>page\<close> and \<open>pageSize\<close> are \<^verbatim>\<open>int\<close> values. The slice expression
  \<^verbatim>\<open>allUsers[startIndex:endIndex]\<close> panics unless \<open>0 \<le> startIndex \<le> endIndex\<close> (the upper
  bound holds, since \<open>endIndex\<close> has been cut to the length).
\<close>

definition GetUserTokensList ::
  "PebbleService \<Rightarrow> (string \<times> UserPushTokens option) list \<Rightarrow> int \<Rightarrow> int
     \<Rightarrow> error + PaginatedUserTokens" where
  "GetUserTokensList ps scan page0 pageSize0 =
     (let page = (if page0 < 1 then 1 else page0);
          pageSize1 = (if pageSize0 < 1 then 10 else pageSize0);
          pageSize = (if pageSize1 > 100 then 100 else pageSize1)
      in if unavailable ps CollectionUserTokens then Inl StoreUnavailable
         else
           (let allUsers = List.map_filter snd scan;
                total = int (length allUsers);
                totalPages = quo (int64 (int64 (total + pageSize) - 1)) pageSize;
                startIndex = int64 (int64 (page - 1) * pageSize);
                endIndex = int64 (startIndex + pageSize)
            in if startIndex \<ge> total
               then Inr \<lparr>Users = [], Total = total, Page = page, PageSize = pageSize,
                         TotalPages = totalPages, HasNext = False\<rparr>
               else
                 (let endIndex' = (if endIndex > total then total else endIndex)
                  in if 0 \<le> startIndex \<and> startIndex \<le> endIndex'
                     then Inr \<lparr>Users = take (nat (endIndex' - startIndex))
                                         (drop (nat startIndex) allUsers),
                               Total = total, Page = page, PageSize = pageSize,
                               TotalPages = totalPages, HasNext = (page < totalPages)\<rparr>
                     else Inl SliceBoundsOutOfRange)))"

text \<open>The items of the pages \<open>1, \<dots>, n\<close> one after the other (a failed call adds none).\<close>

definition pageItems ::
  "PebbleService \<Rightarrow> (string \<times> UserPushTokens option) list \<Rightarrow> int \<Rightarrow> int
     \<Rightarrow> UserPushTokens list" where
  "pageItems ps scan pageSize page =
     (case GetUserTokensList ps scan page pageSize of Inl err \<Rightarrow> [] | Inr r \<Rightarrow> Users r)"

definition pagesUpTo ::
  "PebbleService \<Rightarrow> (string \<times> UserPushTokens option) list \<Rightarrow> int \<Rightarrow> nat
     \<Rightarrow> UserPushTokens list" where
  "pagesUpTo ps scan pageSize n =
     concat (map (\<lambda>k. pageItems ps scan pageSize (int k + 1)) [0..<n])"

section \<open>The float64 arithmetic of the backoff\<close>

text \<open>
  The float64 values the service computes with. A finite value is a sign (\<open>True\<close> for
  negative), a non-negative integer mantissa and a binary exponent and stands for
  \<open>\<plusminus> m \<sqdot> 2^e\<close>; the other values are the two infinities and NaN. \<open>bitLen\<close> is the number
  of binary digits of a non-negative integer (\<^verbatim>\<open>bits.Len\<close>).
\<close>

datatype float64 = F64 bool int int | F64Inf bool | F64NaN

function bitLen :: "int \<Rightarrow> nat" where
  "bitLen m = (if m \<le> 0 then 0 else Suc (bitLen (m div 2)))"
  by pat_completeness auto
termination
  by (relation "measure nat") auto

text \<open>
  IEEE 754 rounding to nearest, ties to even, of \<open>m \<sqdot> 2^e\<close> to a float64: the mantissa is
  cut to 53 binary digits (fewer below \<open>2^-1022\<close>, where the exponent stays at \<open>-1074\<close>), and
  a result of \<open>2^1024\<close> or more is an infinity. \<open>roundNearestEven m s\<close> is \<open>m / 2^s\<close> rounded
  to an integer.
\<close>

definition roundNearestEven :: "int \<Rightarrow> nat \<Rightarrow> int" where
  "roundNearestEven m s =
     (let q = m div 2 ^ s; r = m mod 2 ^ s
      in if 2 ^ s < 2 * r \<or> (2 * r = 2 ^ s \<and> odd q) then q + 1 else q)"

definition float64_round :: "bool \<Rightarrow> int \<Rightarrow> int \<Rightarrow> float64" where
  "float64_round sign m e =
     (let s = max (bitLen m - 53) (nat (- 1074 - e));
          m' = roundNearestEven m s;
          e' = e + int s
      in if 0 < m' \<and> 1024 < int (bitLen m') + e' then F64Inf sign else F64 sign m' e')"

text \<open>
  The conversion \<^verbatim>\<open>float64(x)\<close> of an \<^verbatim>\<open>int64\<close> (\<^verbatim>\<open>time.Duration\<close> is one), the product
  \<^verbatim>\<open>x * y\<close>, the call \<^verbatim>\<open>math.Pow(2, float64(n))\<close> for an \<^verbatim>\<open>int\<close> \<open>n\<close> (a power of two is
  computed exactly; beyond the range of the exponent it is \<open>+Inf\<close> or \<open>0\<close>), and the
  constant \<^verbatim>\<open>0.1\<close>, whose nearest float64 is \<open>3602879701896397 \<sqdot> 2^-55\<close>.
\<close>

definition float64_of_int64 :: "int \<Rightarrow> float64" where
  "float64_of_int64 x = float64_round (x < 0) \<bar>x\<bar> 0"

fun float64_mul :: "float64 \<Rightarrow> float64 \<Rightarrow> float64" where
  "float64_mul (F64 s1 m1 e1) (F64 s2 m2 e2) = float64_round (s1 \<noteq> s2) (m1 * m2) (e1 + e2)"
| "float64_mul (F64 s1 m1 e1) (F64Inf s2) = (if m1 = 0 then F64NaN else F64Inf (s1 \<noteq> s2))"
| "float64_mul (F64Inf s1) (F64 s2 m2 e2) = (if m2 = 0 then F64NaN else F64Inf (s1 \<noteq> s2))"
| "float64_mul (F64Inf s1) (F64Inf s2) = F64Inf (s1 \<noteq> s2)"
| "float64_mul F64NaN y = F64NaN"
| "float64_mul x F64NaN = F64NaN"

definition math_Pow2 :: "int \<Rightarrow> float64" where
  "math_Pow2 n =
     (if 1023 < n then F64Inf False
      else if n < - 1074 then F64 False 0 0
      else F64 False 1 n)"

definition float64_tenth :: float64 where
  "float64_tenth = F64 False 3602879701896397 (- 55)"

text \<open>
  The conversion \<^verbatim>\<open>int64(x)\<close> (or \<^verbatim>\<open>time.Duration(x)\<close>) of a float64: the fraction is cut
  off. For a value that does not fit (and for an infinity or NaN) Go leaves the result to
  the implementation; on amd64 it is the smallest \<^verbatim>\<open>int64\<close>, which is what the model
  returns.
\<close>

definition int64_of_float64 :: "float64 \<Rightarrow> int" where
  "int64_of_float64 x =
     (case x of
        F64 sign m e \<Rightarrow>
          (let t = (if 0 \<le> e then m * 2 ^ nat e else m div 2 ^ nat (- e));
               v = (if sign then - t else t)
           in if - (2 ^ 63) \<le> v \<and> v < 2 ^ 63 then v else - (2 ^ 63))
      | _ \<Rightarrow> - (2 ^ 63))"

section \<open>Expo adapter: client and retrying service\<close>

text \<open>
  The fields of \<^verbatim>\<open>PushMessage\<close> that the relay sets; the remaining optional fields stay at
  their zero value throughout and are left out.
\<close>

record PushMessage =
  pm_To :: "string list"
  pm_Title :: string
  pm_Body :: string
  pm_Data :: "(string \<times> jvalue) list"
  pm_Sound :: string
  pm_TTL :: int
  pm_Priority :: string
  pm_Badge :: "int option"
  pm_RichContent :: "string option"

record PushTicket =
  tk_Status :: string
  tk_ID :: string
  tk_Message :: string

record PushResponse =
  resp_Data :: "PushTicket list"
  resp_Errors :: "(string \<times> string) list"

text \<open>
  What one HTTP exchange with the gateway comes to: no response at all (the request could
  not be sent or the body could not be read), or a status code with the body as
  \<^verbatim>\<open>json.Unmarshal\<close> reads it (\<open>None\<close> when it does not parse).
\<close>

datatype http_reply = NoReply | Reply int "PushResponse option"

text \<open>
  The environment of the adapter. \<open>gateway\<close> gives the outcome of the \<open>n\<close>-th request
  (counted from 0) for its payload; \<open>requests\<close> logs every request that went out, oldest
  first, and \<open>sleeps\<close> the argument of every \<^verbatim>\<open>time.Sleep\<close>, in nanoseconds (a call with
  an argument of zero or less returns at once).
\<close>

record world =
  gateway :: "nat \<Rightarrow> PushMessage list \<Rightarrow> http_reply"
  requests :: "PushMessage list list"
  sleeps :: "int list"

definition MaxMessagesPerRequest :: nat where
  "MaxMessagesPerRequest = 100"

text \<open>
  \<^verbatim>\<open>Client.SendPushNotifications\<close>: the two size checks return before anything is sent;
  otherwise exactly one request goes out. Headers, the access token and marshalling
  failures are not modelled.
\<close>

definition SendPushNotifications ::
  "world \<Rightarrow> PushMessage list \<Rightarrow> (error + PushResponse) \<times> world" where
  "SendPushNotifications w messages =
     (if length messages = 0 then (Inl NoMessages, w)
      else if length messages > MaxMessagesPerRequest
      then (Inl (TooManyMessages (length messages)), w)
      else
        (let w' = w\<lparr>requests := requests w @ [messages]\<rparr> in
         case gateway w (length (requests w)) messages of
           NoReply \<Rightarrow> (Inl TransportFailed, w')
         | Reply status body \<Rightarrow>
             (if status \<noteq> 200 then (Inl (BadStatus status), w')
              else case body of
                     None \<Rightarrow> (Inl BadResponse, w')
                   | Some pushResponse \<Rightarrow> (Inr pushResponse, w'))))"

definition SendPushNotification ::
  "world \<Rightarrow> PushMessage \<Rightarrow> (error + PushResponse) \<times> world" where
  "SendPushNotification w message = SendPushNotifications w [message]"

record Service =
  maxRetries :: int
  baseDelay :: int

record SendNotificationResult =
  snr_Success :: bool
  snr_ReceiptID :: string
  snr_Error :: "error option"
  snr_Token :: string
  snr_Retry :: int

definition shouldRetry :: "Service \<Rightarrow> error \<Rightarrow> int \<Rightarrow> bool" where
  "shouldRetry s err retryCount = (if retryCount \<ge> maxRetries s then False else True)"

text \<open>
  \<^verbatim>\<open>waitBeforeRetry\<close>. \<open>backoffDelay\<close> is the value of \<^verbatim>\<open>delay\<close> that reaches
  \<^verbatim>\<open>time.Sleep\<close>: the base delay scaled in float64 and converted back, then the jitter
  \<^verbatim>\<open>time.Duration(float64(delay) * 0.1)\<close> added in \<^verbatim>\<open>int64\<close>, where the sum wraps around.
\<close>

definition backoffDelay :: "Service \<Rightarrow> int \<Rightarrow> int" where
  "backoffDelay s retryCount =
     (let delay = int64_of_float64
                    (float64_mul (float64_of_int64 (baseDelay s))
                       (math_Pow2 (int64 (retryCount - 1))));
          jitter = int64_of_float64 (float64_mul (float64_of_int64 delay) float64_tenth)
      in int64 (delay + jitter))"

definition waitBeforeRetry :: "Service \<Rightarrow> int \<Rightarrow> world \<Rightarrow> world" where
  "waitBeforeRetry s retryCount w =
     (if retryCount = 0 then w
      else w\<lparr>sleeps := sleeps w @ [backoffDelay s retryCount]\<rparr>)"

text \<open>
  The retry loop of \<^verbatim>\<open>SendSingleNotification\<close>, from the value \<open>retry\<close> of the loop
  variable on. It ends because \<open>retry\<close> grows towards \<open>maxRetries\<close>.
\<close>

function SendSingleNotification_loop ::
  "Service \<Rightarrow> PushMessage \<Rightarrow> int \<Rightarrow> SendNotificationResult \<Rightarrow> world
     \<Rightarrow> SendNotificationResult \<times> world" where
  "SendSingleNotification_loop s message retry result w =
     (if retry \<le> maxRetries s then
        (case SendPushNotification w message of
           (Inl err, w1) \<Rightarrow>
             (if shouldRetry s err retry
              then SendSingleNotification_loop s message (retry + 1)
                     (result\<lparr>snr_Retry := retry\<rparr>) (waitBeforeRetry s retry w1)
              else (result\<lparr>snr_Retry := retry, snr_Error := Some err\<rparr>, w1))
         | (Inr response, w1) \<Rightarrow>
             (if resp_Errors response \<noteq> []
              then (result\<lparr>snr_Retry := retry, snr_Error := Some ApiErrors\<rparr>, w1)
              else case resp_Data response of
                     ticket # _ \<Rightarrow>
                       (if tk_Status ticket = ''ok''
                        then (result\<lparr>snr_Retry := retry, snr_Success := True,
                                snr_ReceiptID := tk_ID ticket\<rparr>, w1)
                        else (result\<lparr>snr_Retry := retry, snr_Error := Some PushFailed\<rparr>, w1))
                   | [] \<Rightarrow> (result\<lparr>snr_Retry := retry, snr_Error := Some NoResponseData\<rparr>, w1)))
      else (result\<lparr>snr_Error := Some MaxRetriesExceeded\<rparr>, w))"
  by pat_completeness auto
termination
  by (relation "measure (\<lambda>(s, message, retry, result, w). nat (maxRetries s + 1 - retry))") auto

definition SendSingleNotification ::
  "Service \<Rightarrow> world \<Rightarrow> string \<Rightarrow> string \<Rightarrow> string \<Rightarrow> (string \<times> jvalue) list
     \<Rightarrow> SendNotificationResult \<times> world" where
  "SendSingleNotification s w token title body data =
     SendSingleNotification_loop s
       \<lparr>pm_To = [token], pm_Title = title, pm_Body = body, pm_Data = data, pm_Sound = [],
        pm_TTL = 0, pm_Priority = [], pm_Badge = None, pm_RichContent = None\<rparr>
       0
       \<lparr>snr_Success = False, snr_ReceiptID = [], snr_Error = None, snr_Token = token,
        snr_Retry = 0\<rparr>
       w"

text \<open>The three loops of \<^verbatim>\<open>sendBatch\<close> that write into \<^verbatim>\<open>results\<close>.\<close>

definition failAll ::
  "error \<Rightarrow> int \<Rightarrow> SendNotificationResult list \<Rightarrow> SendNotificationResult list" where
  "failAll err retry results =
     map (\<lambda>r. if \<not> snr_Success r then r\<lparr>snr_Error := Some err, snr_Retry := retry\<rparr> else r)
       results"

fun applyTickets ::
  "int \<Rightarrow> SendNotificationResult list \<Rightarrow> PushTicket list \<Rightarrow> SendNotificationResult list" where
  "applyTickets retry results [] = results"
| "applyTickets retry [] (ticket # tickets) = []"
| "applyTickets retry (r # results) (ticket # tickets) =
     (if tk_Status ticket = ''ok''
      then r\<lparr>snr_Success := True, snr_ReceiptID := tk_ID ticket, snr_Retry := retry\<rparr>
      else r\<lparr>snr_Error := Some PushFailed, snr_Retry := retry\<rparr>)
     # applyTickets retry results tickets"

definition exceededAll ::
  "int \<Rightarrow> SendNotificationResult list \<Rightarrow> SendNotificationResult list" where
  "exceededAll retries results =
     map (\<lambda>r. if \<not> snr_Success r \<and> snr_Error r = None
               then r\<lparr>snr_Error := Some MaxRetriesExceeded, snr_Retry := retries\<rparr> else r)
       results"

function sendBatch_loop ::
  "Service \<Rightarrow> PushMessage list \<Rightarrow> int \<Rightarrow> SendNotificationResult list \<Rightarrow> world
     \<Rightarrow> SendNotificationResult list \<times> world" where
  "sendBatch_loop s messages retry results w =
     (if retry \<le> maxRetries s then
        (case SendPushNotifications w messages of
           (Inl err, w1) \<Rightarrow>
             (if shouldRetry s err retry
              then sendBatch_loop s messages (retry + 1) results (waitBeforeRetry s retry w1)
              else (failAll err retry results, w1))
         | (Inr response, w1) \<Rightarrow>
             (if resp_Errors response \<noteq> []
              then (failAll ApiErrors retry results, w1)
              else (applyTickets retry results (resp_Data response), w1)))
      else (exceededAll (maxRetries s) results, w))"
  by pat_completeness auto
termination
  by (relation "measure (\<lambda>(s, messages, retry, results, w). nat (maxRetries s + 1 - retry))") auto

definition sendBatch ::
  "Service \<Rightarrow> world \<Rightarrow> string list \<Rightarrow> string \<Rightarrow> string \<Rightarrow> (string \<times> jvalue) list
     \<Rightarrow> SendNotificationResult list \<times> world" where
  "sendBatch s w tokens title body data =
     sendBatch_loop s
       (map (\<lambda>token. \<lparr>pm_To = [token], pm_Title = title, pm_Body = body, pm_Data = data,
                      pm_Sound = [], pm_TTL = 0, pm_Priority = [], pm_Badge = None,
                      pm_RichContent = None\<rparr>) tokens)
       0
       (map (\<lambda>token. \<lparr>snr_Success = False, snr_ReceiptID = [], snr_Error = None,
                      snr_Token = token, snr_Retry = 0\<rparr>) tokens)
       w"

section \<open>Expo adapter: manager\<close>

text \<open>
  The manager with the configuration values it uses. \<^verbatim>\<open>SendCustomMessage\<close> passes the
  sound as a sixth argument to \<^verbatim>\<open>SendSingleNotification\<close>; the service under
  \<^verbatim>\<open>service/expo_service\<close> takes five and builds its message from token, title, body and
  data, which is what the model does.
\<close>

record Manager =
  mgr_service :: Service
  mgr_DefaultSound :: string
  mgr_DefaultTTL :: int
  mgr_DefaultPriority :: string

definition applyDefaults :: "Manager \<Rightarrow> PushMessage \<Rightarrow> PushMessage" where
  "applyDefaults m message =
     (let m1 = (if pm_Sound message = [] then message\<lparr>pm_Sound := mgr_DefaultSound m\<rparr>
                else message);
          m2 = (if pm_TTL m1 = 0 then m1\<lparr>pm_TTL := mgr_DefaultTTL m\<rparr> else m1)
      in if pm_Priority m2 = [] then m2\<lparr>pm_Priority := mgr_DefaultPriority m\<rparr> else m2)"

definition SendCustomMessage ::
  "Manager \<Rightarrow> world \<Rightarrow> PushMessage \<Rightarrow> (error + SendNotificationResult) \<times> world" where
  "SendCustomMessage m w message =
     (if length (pm_To message) = 0 then (Inl NoPushTokens, w)
      else
        (case filter ValidateToken (pm_To message) of
           [] \<Rightarrow> (Inl NoValidPushTokens, w)
         | validToken # others \<Rightarrow>
             (let message' = applyDefaults m message in
              case SendSingleNotification (mgr_service m) w validToken
                     (pm_Title message') (pm_Body message') (pm_Data message') of
                (result, w') \<Rightarrow> (Inr result, w'))))"

section \<open>The dispatcher: package push-service\<close>

record PushNotification =
  pn_Title :: string
  pn_Body :: string
  pn_Data :: "(string \<times> jvalue) list"
  pn_Sound :: string
  pn_Badge :: "int option"
  pn_ImageURL :: string
  pn_Priority :: string

text \<open>\<^verbatim>\<open>Duration\<close> and \<^verbatim>\<open>Timestamp\<close> are wall-clock readings and are left out.\<close>

record PushResult =
  pr_MetaID :: string
  pr_Platform :: string
  pr_Token :: string
  pr_Success :: bool
  pr_ReceiptID :: string
  pr_Error :: "error option"

record BatchPushResult =
  TotalUsers :: nat
  TotalPlatforms :: nat
  SuccessCount :: nat
  FailureCount :: nat
  Results :: "PushResult list"

text \<open>The interface \<^verbatim>\<open>PushProvider\<close>: a record of its methods.\<close>

record PushProvider =
  GetName :: string
  pv_ValidateToken :: "string \<Rightarrow> bool"
  pv_SendNotification ::
    "world \<Rightarrow> string \<Rightarrow> PushNotification \<Rightarrow> (error + PushResult) \<times> world"

definition ProviderTypeExpo :: string where
  "ProviderTypeExpo = ''expo''"

definition buildExpoMessage :: "string \<Rightarrow> PushNotification \<Rightarrow> PushMessage" where
  "buildExpoMessage token notification =
     \<lparr>pm_To = [token], pm_Title = pn_Title notification, pm_Body = pn_Body notification,
      pm_Data = pn_Data notification, pm_Sound = pn_Sound notification, pm_TTL = 0,
      pm_Priority = pn_Priority notification, pm_Badge = pn_Badge notification,
      pm_RichContent =
        (if pn_ImageURL notification \<noteq> [] then Some (pn_ImageURL notification) else None)\<rparr>"

definition ExpoProvider_SendNotification ::
  "Manager \<Rightarrow> world \<Rightarrow> string \<Rightarrow> PushNotification \<Rightarrow> (error + PushResult) \<times> world" where
  "ExpoProvider_SendNotification manager w token notification =
     (case SendCustomMessage manager w (buildExpoMessage token notification) of
        (Inl err, w') \<Rightarrow>
          (Inr \<lparr>pr_MetaID = [], pr_Platform = [], pr_Token = token, pr_Success = False,
                pr_ReceiptID = [], pr_Error = Some err\<rparr>, w')
      | (Inr expoResult, w') \<Rightarrow>
          (Inr \<lparr>pr_MetaID = [], pr_Platform = [], pr_Token = token,
                pr_Success = snr_Success expoResult,
                pr_ReceiptID = snr_ReceiptID expoResult,
                pr_Error = (if \<not> snr_Success expoResult \<and> snr_Error expoResult \<noteq> None
                            then snr_Error expoResult else None)\<rparr>, w'))"

definition ExpoProvider :: "Manager \<Rightarrow> PushProvider" where
  "ExpoProvider manager =
     \<lparr>GetName = ProviderTypeExpo,
      pv_ValidateToken = ValidateToken,
      pv_SendNotification = ExpoProvider_SendNotification manager\<rparr>"

text \<open>
  \<^verbatim>\<open>DefaultPushService\<close>. Its token store is the \<^verbatim>\<open>PebbleTokenStore\<close> over the global
  service, which the relay installs at initialisation: the functions below take that
  store as \<open>ps\<close>.
\<close>

record DefaultPushService =
  providers :: "string \<rightharpoonup> PushProvider"

definition NewPushService :: DefaultPushService where
  "NewPushService = \<lparr>providers = Map.empty\<rparr>"

definition RegisterProvider ::
  "DefaultPushService \<Rightarrow> PushProvider \<Rightarrow> error + DefaultPushService" where
  "RegisterProvider s provider =
     (if GetName provider = [] then Inl InvalidArgument
      else Inr (s\<lparr>providers := (providers s)(GetName provider \<mapsto> provider)\<rparr>))"

definition sendSingleNotification ::
  "world \<Rightarrow> string \<Rightarrow> string \<Rightarrow> string \<Rightarrow> PushProvider \<Rightarrow> PushNotification
     \<Rightarrow> PushResult \<times> world" where
  "sendSingleNotification w metaId platform token provider notification =
     (let result = \<lparr>pr_MetaID = metaId, pr_Platform = platform, pr_Token = token,
                     pr_Success = False, pr_ReceiptID = [], pr_Error = None\<rparr>
      in if \<not> pv_ValidateToken provider token
         then (result\<lparr>pr_Error := Some (InvalidToken platform)\<rparr>, w)
         else
           (case pv_SendNotification provider w token notification of
              (Inl err, w') \<Rightarrow> (result\<lparr>pr_Error := Some err\<rparr>, w')
            | (Inr providerResult, w') \<Rightarrow>
                (result\<lparr>pr_Success := pr_Success providerResult,
                        pr_ReceiptID := pr_ReceiptID providerResult,
                        pr_Error := pr_Error providerResult\<rparr>, w')))"

text \<open>
  The fan-out of \<^verbatim>\<open>SendToUsers\<close>: for every user of the token map and every platform of
  the user with a registered provider, one goroutine calls \<^verbatim>\<open>sendSingleNotification\<close>
  and appends its result. Go fixes neither the order of map iteration nor the
  interleaving of the goroutines; the model runs them one after the other in the order
  of the association lists.
\<close>

fun sendToPlatforms ::
  "DefaultPushService \<Rightarrow> PushNotification \<Rightarrow> string \<Rightarrow> (string \<times> string) list
     \<Rightarrow> PushResult list \<times> world \<Rightarrow> PushResult list \<times> world" where
  "sendToPlatforms s notification metaId [] acc = acc"
| "sendToPlatforms s notification metaId ((platform, token) # rest) acc =
     (case providers s platform of
        None \<Rightarrow> sendToPlatforms s notification metaId rest acc
      | Some provider \<Rightarrow>
          (case sendSingleNotification (snd acc) metaId platform token provider notification of
             (result, w') \<Rightarrow>
               sendToPlatforms s notification metaId rest (fst acc @ [result], w')))"

fun sendToAll ::
  "DefaultPushService \<Rightarrow> PushNotification \<Rightarrow> (string \<times> UserPushTokens) list
     \<Rightarrow> PushResult list \<times> world \<Rightarrow> PushResult list \<times> world" where
  "sendToAll s notification [] acc = acc"
| "sendToAll s notification ((metaId, userTokens) # rest) acc =
     sendToAll s notification rest
       (sendToPlatforms s notification metaId (upt_Tokens userTokens) acc)"

text \<open>
  \<^verbatim>\<open>SendToUsers\<close>. Its error result is that of \<^verbatim>\<open>GetAllUserTokens\<close>, which the Pebble
  token store never returns, so the model returns the batch result alone.
\<close>

definition SendToUsers ::
  "DefaultPushService \<Rightarrow> PebbleService \<Rightarrow> world \<Rightarrow> string list \<Rightarrow> PushNotification
     \<Rightarrow> BatchPushResult \<times> world" where
  "SendToUsers s ps w metaIds notification =
     (if length metaIds = 0
      then (\<lparr>TotalUsers = 0, TotalPlatforms = 0, SuccessCount = 0, FailureCount = 0,
              Results = []\<rparr>, w)
      else
        (case sendToAll s notification (GetAllUserTokens ps metaIds) ([], w) of
           (results, w') \<Rightarrow>
             (\<lparr>TotalUsers = length metaIds,
               TotalPlatforms = length (remdups (map pr_Platform results)),
               SuccessCount = length (filter pr_Success results),
               FailureCount = length (filter (\<lambda>r. \<not> pr_Success r) results),
               Results = results\<rparr>, w')))"

definition SendToUsersWithData ::
  "DefaultPushService \<Rightarrow> PebbleService \<Rightarrow> world \<Rightarrow> string list \<Rightarrow> string \<Rightarrow> string
     \<Rightarrow> (string \<times> jvalue) list \<Rightarrow> BatchPushResult \<times> world" where
  "SendToUsersWithData s ps w metaIds title body data =
     SendToUsers s ps w metaIds
       \<lparr>pn_Title = title, pn_Body = body, pn_Data = data, pn_Sound = ''default'',
        pn_Badge = None, pn_ImageURL = [], pn_Priority = []\<rparr>"

section \<open>The relay: package pushcenter\<close>

record ExtraServiceMessage =
  esm_Message :: jvalue
  RepostMetaIds :: "string list"
  MentionMetaIds :: "string list"

record ChatNotificationMessage =
  cm_Type :: string
  cm_Data :: "ExtraServiceMessage option"

record ParsedMessageInfo =
  PinId :: string
  GroupId :: string
  MetaId :: string
  ChatType :: string
  UserName :: string
  ChatInfoType :: int

text \<open>
  The recurring lookup \<^verbatim>\<open>if v, exists := m[k]; exists { if s, ok := v.(string); ok {...} }\<close>.
\<close>

definition stringField :: "(string \<times> jvalue) list \<Rightarrow> string \<Rightarrow> string option" where
  "stringField m k = (case map_of m k of Some (JString s) \<Rightarrow> Some s | _ \<Rightarrow> None)"

text \<open>
  The conversion \<^verbatim>\<open>int64(v)\<close> of the float64 of a JSON number, given by its value: the
  fraction is cut off, and a value that does not fit gives the smallest \<^verbatim>\<open>int64\<close> (as
  with \<open>int64_of_float64\<close>).
\<close>

definition int64_of_float :: "rat \<Rightarrow> int" where
  "int64_of_float v =
     (let t = (if 0 \<le> v then \<lfloor>v\<rfloor> else \<lceil>v\<rceil>)
      in if - (2 ^ 63) \<le> t \<and> t < 2 ^ 63 then t else - (2 ^ 63))"

text \<open>The branch \<^verbatim>\<open>case "private_chat"\<close> of \<^verbatim>\<open>parseMessageInfo\<close>.\<close>

definition parsePrivateChat ::
  "(string \<times> jvalue) list \<Rightarrow> ParsedMessageInfo \<Rightarrow> ParsedMessageInfo" where
  "parsePrivateChat messageMap parsedInfo =
     (let p1 = (case stringField messageMap ''metaId'' of
                  Some s \<Rightarrow> parsedInfo\<lparr>MetaId := s\<rparr> | None \<Rightarrow> parsedInfo);
          p2 = (if MetaId p1 = [] then
                  (case stringField messageMap ''from'' of
                     Some s \<Rightarrow> p1\<lparr>MetaId := s\<rparr> | None \<Rightarrow> p1)
                else p1)
      in if MetaId p2 = [] then
           (case stringField messageMap ''to'' of
              Some s \<Rightarrow> p2\<lparr>MetaId := s\<rparr> | None \<Rightarrow> p2)
         else p2)"

text \<open>The branch \<^verbatim>\<open>case "group_chat"\<close>, with the type switch on \<^verbatim>\<open>chatType\<close>.\<close>

definition parseGroupChat ::
  "(string \<times> jvalue) list \<Rightarrow> ParsedMessageInfo \<Rightarrow> ParsedMessageInfo" where
  "parseGroupChat messageMap parsedInfo =
     (let p1 = (case stringField messageMap ''groupId'' of
                  Some s \<Rightarrow> parsedInfo\<lparr>GroupId := s\<rparr> | None \<Rightarrow> parsedInfo);
          p2 = (if GroupId p1 = [] then
                  (case stringField messageMap ''channelId'' of
                     Some s \<Rightarrow> p1\<lparr>GroupId := s\<rparr> | None \<Rightarrow> p1)
                else p1)
      in case map_of messageMap ''chatType'' of
           Some (JInt64 v) \<Rightarrow> p2\<lparr>ChatInfoType := v\<rparr>
         | Some (JInt v) \<Rightarrow> p2\<lparr>ChatInfoType := v\<rparr>
         | Some (JFloat64 v) \<Rightarrow> p2\<lparr>ChatInfoType := int64_of_float v\<rparr>
         | Some (JInt32 v) \<Rightarrow> p2\<lparr>ChatInfoType := v\<rparr>
         | Some (JInt16 v) \<Rightarrow> p2\<lparr>ChatInfoType := v\<rparr>
         | Some (JInt8 v) \<Rightarrow> p2\<lparr>ChatInfoType := v\<rparr>
         | _ \<Rightarrow> p2)"

definition parseMessageInfo :: "ChatNotificationMessage \<Rightarrow> error + ParsedMessageInfo" where
  "parseMessageInfo chatMsg =
     (case cm_Data chatMsg of
        None \<Rightarrow> Inl MessageEmpty
      | Some d \<Rightarrow>
          (let parsedInfo = \<lparr>PinId = [], GroupId = [], MetaId = [], ChatType = cm_Type chatMsg,
                             UserName = [], ChatInfoType = 0\<rparr>
           in case esm_Message d of
                JNil \<Rightarrow> Inl MessageEmpty
              | JMap messageMap \<Rightarrow>
                  (let p1 = (case stringField messageMap ''pinId'' of
                               Some s \<Rightarrow> parsedInfo\<lparr>PinId := s\<rparr> | None \<Rightarrow> parsedInfo);
                       p2 = (case map_of messageMap ''userInfo'' of
                               Some (JMap userInfoMap) \<Rightarrow>
                                 (case stringField userInfoMap ''name'' of
                                    Some s \<Rightarrow> p1\<lparr>UserName := s\<rparr> | None \<Rightarrow> p1)
                             | _ \<Rightarrow> p1)
                   in if cm_Type chatMsg = ''private_chat''
                      then Inr (parsePrivateChat messageMap p2)
                      else if cm_Type chatMsg = ''group_chat''
                      then Inr (parseGroupChat messageMap p2)
                      else Inr p2)
              | _ \<Rightarrow> Inr parsedInfo))"

definition generateNotificationTitle :: "string \<Rightarrow> bool \<Rightarrow> string" where
  "generateNotificationTitle msgType isMention =
     (if isMention then
        (if msgType = ''private_chat'' then ''New Mention''
         else if msgType = ''group_chat'' then ''You were mentioned''
         else ''New Mention'')
      else
        (if msgType = ''private_chat'' then ''New Message''
         else if msgType = ''group_chat'' then ''New Message in Group''
         else ''New Message''))"

definition truncateUserName :: "string \<Rightarrow> string" where
  "truncateUserName userName =
     (if userName = [] then userName
      else if length userName \<le> 20 then userName
      else take (20 - 3) userName @ ''...'')"

definition GenerateNotificationBody ::
  "string \<Rightarrow> string \<Rightarrow> int \<Rightarrow> bool \<Rightarrow> string \<Rightarrow> string" where
  "GenerateNotificationBody msgType userName chatInfoType isMention groupId =
     (if isMention then
        (let truncatedName = (if truncateUserName userName = [] then ''Someone''
                              else truncateUserName userName)
         in if msgType = ''private_chat'' then
              (if chatInfoType = 1 \<or> chatInfoType = 23
               then truncatedName @ '' mentioned you with a Candy Bag''
               else truncatedName @ '' mentioned you'')
            else if msgType = ''group_chat'' then
              (if chatInfoType = 1 \<or> chatInfoType = 23
               then truncatedName @ '' mentioned you with a Candy Bag''
               else truncatedName @ '' mentioned you'')
            else
              (if chatInfoType = 1 \<or> chatInfoType = 23
               then truncatedName @ '' mentioned you with a Candy Bag''
               else truncatedName @ '' mentioned you''))
      else if msgType = ''private_chat'' then
        (if userName \<noteq> [] then
           (if chatInfoType = 1 \<or> chatInfoType = 23
            then truncateUserName userName @ '' sent you a Candy Bag''
            else truncateUserName userName @ '' sent you a message'')
         else ''You have a new message'')
      else if msgType = ''group_chat'' then
        (if userName \<noteq> [] then
           (if chatInfoType = 1 \<or> chatInfoType = 23
            then truncateUserName userName @ '' sent a Candy Bag''
            else truncateUserName userName @ '' sent a message'')
         else ''New message in group'')
      else
        (if userName \<noteq> [] then
           (if chatInfoType = 1 \<or> chatInfoType = 23
            then truncateUserName userName @ '' sent you a Candy Bag''
            else truncateUserName userName @ '' sent you a message'')
         else ''You have a new message''))"

text \<open>
  The chat id that \<^verbatim>\<open>filterBlockedUsers\<close> derives for every recipient (it does not depend
  on the recipient): the private peer, the group, or empty for any other type.
\<close>

definition chatIDOf :: "ParsedMessageInfo \<Rightarrow> string" where
  "chatIDOf parsedInfo =
     (if ChatType parsedInfo = ''private_chat'' then MetaId parsedInfo
      else if ChatType parsedInfo = ''group_chat'' then GroupId parsedInfo
      else [])"

fun filterBlockedUsers_loop ::
  "PebbleService \<Rightarrow> ParsedMessageInfo \<Rightarrow> string list \<Rightarrow> string list" where
  "filterBlockedUsers_loop ps parsedInfo [] = []"
| "filterBlockedUsers_loop ps parsedInfo (metaId # rest) =
     (let chatID = chatIDOf parsedInfo in
      if ChatType parsedInfo = ''private_chat'' \<and> metaId = chatID
      then filterBlockedUsers_loop ps parsedInfo rest
      else if chatID = []
      then metaId # filterBlockedUsers_loop ps parsedInfo rest
      else
        (case IsUserBlockedChat ps metaId chatID of
           Inl err \<Rightarrow> metaId # filterBlockedUsers_loop ps parsedInfo rest
         | Inr isBlocked \<Rightarrow>
             (if isBlocked then filterBlockedUsers_loop ps parsedInfo rest
              else metaId # filterBlockedUsers_loop ps parsedInfo rest)))"

definition filterBlockedUsers ::
  "PebbleService \<Rightarrow> string list \<Rightarrow> ParsedMessageInfo \<Rightarrow> string list" where
  "filterBlockedUsers ps metaIds parsedInfo =
     (if length metaIds = 0 then metaIds
      else filterBlockedUsers_loop ps parsedInfo metaIds)"

record PushCenter =
  pushManager :: DefaultPushService
  EnabledTypes :: "string list"

definition isMessageTypeEnabled :: "PushCenter \<Rightarrow> string \<Rightarrow> bool" where
  "isMessageTypeEnabled pc msgType = list_ex (\<lambda>enabledType. enabledType = msgType) (EnabledTypes pc)"

text \<open>
  What one run of \<^verbatim>\<open>processChatMessage\<close> did: the recipients, title, body and data of each
  call of \<^verbatim>\<open>SendToUsersWithData\<close> with the batch result it returned (the mention call comes
  first), and the PIN handed to the goroutine \<^verbatim>\<open>go AddNotifiedPin(...)\<close>, which runs after
  the function has returned.
\<close>

record DispatchCall =
  dc_metaIds :: "string list"
  dc_title :: string
  dc_body :: string
  dc_data :: "(string \<times> jvalue) list"
  dc_result :: BatchPushResult

record Outcome =
  mentionCall :: "DispatchCall option"
  normalCall :: "DispatchCall option"
  spawnedPin :: "string option"

definition dropped :: Outcome where
  "dropped = \<lparr>mentionCall = None, normalCall = None, spawnedPin = None\<rparr>"

text \<open>The custom data of a notification; \<open>now\<close> is \<^verbatim>\<open>time.Now().Unix()\<close>.\<close>

definition customData ::
  "ChatNotificationMessage \<Rightarrow> ExtraServiceMessage \<Rightarrow> ParsedMessageInfo \<Rightarrow> int \<Rightarrow> bool
     \<Rightarrow> (string \<times> jvalue) list" where
  "customData chatMsg d parsedInfo now isMention =
     (let base = [(''type'', JString (cm_Type chatMsg)), (''message'', esm_Message d),
                  (''timestamp'', JInt64 now), (''pinId'', JString (PinId parsedInfo))]
                 @ (if isMention then [(''isMention'', JBool True)] else [])
      in if ChatType parsedInfo = ''private_chat'' \<and> MetaId parsedInfo \<noteq> []
         then AList.update ''metaId'' (JString (MetaId parsedInfo)) base
         else if ChatType parsedInfo = ''group_chat'' \<and> GroupId parsedInfo \<noteq> []
         then AList.update ''groupId'' (JString (GroupId parsedInfo)) base
         else base)"

definition dispatch ::
  "PushCenter \<Rightarrow> PebbleService \<Rightarrow> world \<Rightarrow> string list \<Rightarrow> string \<Rightarrow> string
     \<Rightarrow> (string \<times> jvalue) list \<Rightarrow> DispatchCall option \<times> world" where
  "dispatch pc ps w users title body data =
     (if length users > 0 then
        (case SendToUsersWithData (pushManager pc) ps w users title body data of
           (result, w') \<Rightarrow>
             (Some \<lparr>dc_metaIds = users, dc_title = title, dc_body = body, dc_data = data,
                     dc_result = result\<rparr>, w'))
      else (None, w))"

text \<open>
  \<^verbatim>\<open>processChatMessage\<close>. The 30 s deadline of its context is not modelled. The case of a
  nil \<^verbatim>\<open>Data\<close> after a successful parse cannot arise (\<^verbatim>\<open>parseMessageInfo\<close> rejects it).
\<close>

definition processChatMessage ::
  "PushCenter \<Rightarrow> int \<Rightarrow> PebbleService \<Rightarrow> world \<Rightarrow> ChatNotificationMessage
     \<Rightarrow> Outcome \<times> world" where
  "processChatMessage pc now ps w chatMsg =
     (case parseMessageInfo chatMsg of
        Inl err \<Rightarrow> (dropped, w)
      | Inr parsedInfo \<Rightarrow>
          (if PinId parsedInfo \<noteq> [] \<and>
              (case IsNotifiedPin ps (PinId parsedInfo) of
                 Inl err \<Rightarrow> True
               | Inr isNotified \<Rightarrow> isNotified)
           then (dropped, w)
           else
             (case cm_Data chatMsg of
                None \<Rightarrow> (dropped, w)
              | Some d \<Rightarrow>
                  (if length (RepostMetaIds d) = 0 then (dropped, w)
                   else
                     (let filteredMetaIds = filterBlockedUsers ps (RepostMetaIds d) parsedInfo;
                          mentionedUsers = MentionMetaIds d;
                          normalUsers = filter (\<lambda>metaId. metaId \<notin> set (MentionMetaIds d))
                                          filteredMetaIds
                      in case dispatch pc ps w mentionedUsers
                                (generateNotificationTitle (cm_Type chatMsg) True)
                                (GenerateNotificationBody (cm_Type chatMsg)
                                   (UserName parsedInfo) (ChatInfoType parsedInfo) True
                                   (GroupId parsedInfo))
                                (customData chatMsg d parsedInfo now True) of
                           (mention, w1) \<Rightarrow>
                             (case dispatch pc ps w1 normalUsers
                                     (generateNotificationTitle (cm_Type chatMsg) False)
                                     (GenerateNotificationBody (cm_Type chatMsg)
                                        (UserName parsedInfo) (ChatInfoType parsedInfo) False [])
                                     (customData chatMsg d parsedInfo now False) of
                                (normal, w2) \<Rightarrow>
                                  (\<lparr>mentionCall = mention, normalCall = normal,
                                    spawnedPin = (if PinId parsedInfo \<noteq> []
                                                  then Some (PinId parsedInfo) else None)\<rparr>,
                                   w2)))))))"

text \<open>
  The handler installed by \<^verbatim>\<open>SetChatMessageHandler\<close> (for a non-nil message), with the
  \<^verbatim>\<open>processChatMessage\<close> it starts, and the body of the goroutine
  \<^verbatim>\<open>go pebble_service.AddNotifiedPin(...)\<close>, whose error nobody reads.
\<close>

definition handleChatMessage ::
  "PushCenter \<Rightarrow> int \<Rightarrow> PebbleService \<Rightarrow> world \<Rightarrow> ChatNotificationMessage
     \<Rightarrow> Outcome \<times> world" where
  "handleChatMessage pc now ps w chatMsg =
     (if cm_Data chatMsg = None then (dropped, w)
      else if \<not> isMessageTypeEnabled pc (cm_Type chatMsg) then (dropped, w)
      else processChatMessage pc now ps w chatMsg)"

definition recordPin :: "PebbleService \<Rightarrow> string option \<Rightarrow> PebbleService" where
  "recordPin ps spawned =
     (case spawned of
        None \<Rightarrow> ps
      | Some pin \<Rightarrow> (case AddNotifiedPin ps pin of Inl err \<Rightarrow> ps | Inr ps' \<Rightarrow> ps'))"

text \<open>
  The relay at run time. The socket client hands every frame to a goroutine of its own
  (\<^verbatim>\<open>go c.OnChatNotificationMessage(chatMessage)\<close>), the handler starts
  \<^verbatim>\<open>go pc.processChatMessage(chatMsg)\<close>, and the PIN is written by one more goroutine,
  started after the sends. A state of the relay holds the store, the environment, the
  PINs of the write goroutines that have been started and have not run yet, and the
  envelopes processed so far with their outcomes. An event is the processing of a frame
  (at the time \<open>now\<close>) or the run of the \<open>i\<close>-th pending write; the scheduler decides on
  their order. \<^verbatim>\<open>processChatMessage\<close> only reads the store, and besides the dedup lookup it
  reads nothing that a pending write changes: its place among the writes is the place of
  its lookup, and it is taken as one event (the requests of two frames are not interleaved
  with each other).
\<close>

datatype event = Frame int ChatNotificationMessage | PinWrite nat

record relay =
  rl_store :: PebbleService
  rl_world :: world
  rl_pending :: "string list"
  rl_log :: "(ChatNotificationMessage \<times> Outcome) list"

fun relayStep :: "PushCenter \<Rightarrow> relay \<Rightarrow> event \<Rightarrow> relay" where
  "relayStep pc r (Frame now chatMsg) =
     (case handleChatMessage pc now (rl_store r) (rl_world r) chatMsg of
        (out, w') \<Rightarrow>
          r\<lparr>rl_world := w',
            rl_pending := rl_pending r @ (case spawnedPin out of None \<Rightarrow> [] | Some pin \<Rightarrow> [pin]),
            rl_log := rl_log r @ [(chatMsg, out)]\<rparr>)"
| "relayStep pc r (PinWrite i) =
     (if i < length (rl_pending r)
      then r\<lparr>rl_store := recordPin (rl_store r) (Some (rl_pending r ! i)),
             rl_pending := take i (rl_pending r) @ drop (Suc i) (rl_pending r)\<rparr>
      else r)"

definition runEvents :: "PushCenter \<Rightarrow> relay \<Rightarrow> event list \<Rightarrow> relay" where
  "runEvents pc r events = foldl (relayStep pc) r events"

section \<open>Initial values and test doubles\<close>

text \<open>
  A fresh store; the manager of \<^verbatim>\<open>NewManager\<close> with the values of \<^verbatim>\<open>DefaultConfig\<close> (the
  base delay of one second in nanoseconds); a relay with the Expo provider registered and
  both message types enabled, as \<^verbatim>\<open>NewPushCenter\<close> enables them by default.
\<close>

definition emptyStore :: PebbleService where
  "emptyStore =
     \<lparr>user_tokens = Map.empty, devices = Map.empty, blocked_chats = Map.empty,
      notified_pins = Map.empty, unavailable = (\<lambda>c. False)\<rparr>"

definition NewManager :: Manager where
  "NewManager =
     \<lparr>mgr_service = \<lparr>maxRetries = 3, baseDelay = 1000000000\<rparr>,
      mgr_DefaultSound = ''default'', mgr_DefaultTTL = 3600, mgr_DefaultPriority = ''normal''\<rparr>"

definition expoPushService :: "Manager \<Rightarrow> DefaultPushService" where
  "expoPushService manager =
     \<lparr>providers = (providers NewPushService)(ProviderTypeExpo \<mapsto> ExpoProvider manager)\<rparr>"

definition NewPushCenter :: PushCenter where
  "NewPushCenter =
     \<lparr>pushManager = expoPushService NewManager,
      EnabledTypes = [''private_chat'', ''group_chat'']\<rparr>"

text \<open>
  Gateways for the scenarios: one that accepts every message, one that never answers, and
  one that fails the first \<open>k\<close> requests and accepts from then on.
\<close>

definition okGateway :: "nat \<Rightarrow> PushMessage list \<Rightarrow> http_reply" where
  "okGateway n messages =
     Reply 200 (Some \<lparr>resp_Data = map (\<lambda>m. \<lparr>tk_Status = ''ok'', tk_ID = ''receipt'',
                                           tk_Message = []\<rparr>) messages,
                      resp_Errors = []\<rparr>)"

definition deadGateway :: "nat \<Rightarrow> PushMessage list \<Rightarrow> http_reply" where
  "deadGateway n messages = NoReply"

definition flakyGateway :: "nat \<Rightarrow> nat \<Rightarrow> PushMessage list \<Rightarrow> http_reply" where
  "flakyGateway k n messages = (if n < k then NoReply else okGateway n messages)"

definition newWorld :: "(nat \<Rightarrow> PushMessage list \<Rightarrow> http_reply) \<Rightarrow> world" where
  "newWorld g = \<lparr>gateway = g, requests = [], sleeps = []\<rparr>"

text \<open>A relay that has just been started, with nothing processed and no write pending.\<close>

definition newRelay :: "PebbleService \<Rightarrow> world \<Rightarrow> relay" where
  "newRelay ps w = \<lparr>rl_store = ps, rl_world = w, rl_pending = [], rl_log = []\<rparr>"

section \<open>Observations on a run of the relay\<close>

text \<open>
  The dispatcher calls of one outcome in the order they were made, the PIN an envelope
  carries (empty when it has none or does not parse), and, for the envelopes processed
  with their outcomes, the dispatcher calls made for a PIN and the number of envelopes
  with that PIN that reached the dispatcher at all.
\<close>

definition callsOf :: "Outcome \<Rightarrow> DispatchCall list" where
  "callsOf out =
     (case mentionCall out of None \<Rightarrow> [] | Some c \<Rightarrow> [c]) @
     (case normalCall out of None \<Rightarrow> [] | Some c \<Rightarrow> [c])"

definition pinOf :: "ChatNotificationMessage \<Rightarrow> string" where
  "pinOf chatMsg = (case parseMessageInfo chatMsg of Inl err \<Rightarrow> [] | Inr info \<Rightarrow> PinId info)"

definition callsForPin ::
  "string \<Rightarrow> (ChatNotificationMessage \<times> Outcome) list \<Rightarrow> DispatchCall list" where
  "callsForPin pin entries =
     concat (map (\<lambda>(chatMsg, out). if pinOf chatMsg = pin then callsOf out else []) entries)"

definition fanOutsForPin :: "string \<Rightarrow> (ChatNotificationMessage \<times> Outcome) list \<Rightarrow> nat" where
  "fanOutsForPin pin entries =
     length (filter (\<lambda>(chatMsg, out). pinOf chatMsg = pin \<and> callsOf out \<noteq> []) entries)"

text \<open>The dedup step drops an envelope with this PIN: the lookup fails or says yes.\<close>

definition dedupDrops :: "PebbleService \<Rightarrow> string \<Rightarrow> bool" where
  "dedupDrops ps pin = (case IsNotifiedPin ps pin of Inl err \<Rightarrow> True | Inr isNotified \<Rightarrow> isNotified)"

text \<open>
  The schedule in which the frames are processed one at a time and the write that a
  frame starts runs before the next frame is looked at.
\<close>

definition oneAtATime :: "(int \<times> ChatNotificationMessage) list \<Rightarrow> event list" where
  "oneAtATime envs = concat (map (\<lambda>(now, chatMsg). [Frame now chatMsg, PinWrite 0]) envs)"

section \<open>Observations on the adapter and the dispatcher\<close>

text \<open>
  The schedule in the words of the specification. \<open>spec_delay base n d\<close>: the delay \<open>d\<close> is
  \<open>base \<sqdot> 2^(n-1) \<sqdot> (1 + jitter)\<close> for some jitter between 0 and 0.1. At the lower end
  (jitter 0): the delay before the \<open>n\<close>-th retry, and the total wait before a success that
  follows \<open>k\<close> failures.
\<close>

definition spec_delay :: "int \<Rightarrow> nat \<Rightarrow> int \<Rightarrow> bool" where
  "spec_delay base n d = (base * 2 ^ (n - 1) \<le> d \<and> 10 * d \<le> 11 * (base * 2 ^ (n - 1)))"

definition spec_delay_floor :: "int \<Rightarrow> nat \<Rightarrow> int" where
  "spec_delay_floor base n = base * 2 ^ (n - 1)"

definition spec_total_wait_floor :: "int \<Rightarrow> nat \<Rightarrow> int" where
  "spec_total_wait_floor base k = (\<Sum>n \<leftarrow> [1..<k + 1]. spec_delay_floor base n)"

text \<open>
  A gateway that never answers, and one that answers every request with status 200 and
  a body that parses.
\<close>

definition gatewayDown :: "world \<Rightarrow> bool" where
  "gatewayDown w = (\<forall>n messages. gateway w n messages = NoReply)"





text \<open>
  A gateway that fails the next \<open>k\<close> requests and accepts the one after them, with an
  \<open>ok\<close> ticket for each of its messages.
\<close>

definition failsThenAccepts :: "world \<Rightarrow> nat \<Rightarrow> string \<Rightarrow> bool" where
  "failsThenAccepts w k receipt =
     ((\<forall>i < k. \<forall>messages. gateway w (length (requests w) + i) messages = NoReply) \<and>
      (\<forall>messages. gateway w (length (requests w) + k) messages =
         Reply 200 (Some \<lparr>resp_Data = map (\<lambda>m. \<lparr>tk_Status = ''ok'', tk_ID = receipt,
                                               tk_Message = []\<rparr>) messages,
                          resp_Errors = []\<rparr>)))"

section \<open>Scenarios\<close>

text \<open>
  Two users with an Expo token each and a private-chat envelope from \<open>u1\<close> whose message
  carries \<^verbatim>\<open>chatType\<close> 1; a group \<open>g1\<close> that \<open>u3\<close> has muted and a group-chat envelope for it.
  The mention list of each envelope is left open.
\<close>

definition privateStore :: PebbleService where
  "privateStore =
     fst (SetUserToken
            (fst (SetUserToken emptyStore ''u1'' ''expo'' ''ExponentPushToken[u1-device]''))
            ''u2'' ''expo'' ''ExponentPushToken[u2-device]'')"

definition privateEnvelope :: "string list \<Rightarrow> ChatNotificationMessage" where
  "privateEnvelope mentions =
     \<lparr>cm_Type = ''private_chat'',
      cm_Data = Some
        \<lparr>esm_Message =
           JMap [(''pinId'', JString ''P1''), (''metaId'', JString ''u1''),
                 (''userInfo'', JMap [(''name'', JString ''Alice'')]),
                 (''chatType'', JFloat64 1)],
         RepostMetaIds = [''u1'', ''u2''], MentionMetaIds = mentions\<rparr>\<rparr>"

definition groupStore :: PebbleService where
  "groupStore =
     (case AddBlockedChat
             (fst (SetUserToken
                     (fst (SetUserToken emptyStore ''u3'' ''expo''
                             ''ExponentPushToken[u3-device]''))
                     ''u4'' ''expo'' ''ExponentPushToken[u4-device]''))
             ''u3'' ''g1'' ''group'' [] of
        Inl err \<Rightarrow> emptyStore
      | Inr ps \<Rightarrow> ps)"

definition groupEnvelope :: "string list \<Rightarrow> ChatNotificationMessage" where
  "groupEnvelope mentions =
     \<lparr>cm_Type = ''group_chat'',
      cm_Data = Some
        \<lparr>esm_Message =
           JMap [(''pinId'', JString ''P2''), (''groupId'', JString ''g1''),
                 (''userInfo'', JMap [(''name'', JString ''Bob'')]),
                 (''chatType'', JFloat64 1)],
         RepostMetaIds = [''u3'', ''u4''], MentionMetaIds = mentions\<rparr>\<rparr>"

section \<open>Properties of the token syntax\<close>

lemma take_eq_prefix:
  "length p = n \<Longrightarrow> n \<le> length t \<Longrightarrow> (take n t = p) = prefix p t"
  by (metis append_eq_conv_conj append_take_drop_id prefix_def)

text \<open>
  C5 (as amended). The Expo token check is purely syntactic: it accepts exactly the strings
  of MORE than 20 bytes (at least 21) that begin with \<^verbatim>\<open>ExponentPushToken[\<close> or
  \<^verbatim>\<open>ExpoPushToken[\<close>, and rejects every other string.
\<close>

theorem ValidateToken_iff:
  "ValidateToken t =
     (21 \<le> length t \<and> (prefix ''ExponentPushToken['' t \<or> prefix ''ExpoPushToken['' t))"
proof (cases "20 < length t")
  case True
  then have "(take 18 t = ''ExponentPushToken['') = prefix ''ExponentPushToken['' t"
    and "(take 14 t = ''ExpoPushToken['') = prefix ''ExpoPushToken['' t"
    by (simp_all add: take_eq_prefix)
  with True show ?thesis
    by (simp add: ValidateToken_def)
next
  case False
  then show ?thesis
    by (simp add: ValidateToken_def)
qed

text \<open>
  C5 as stated fails: a well-prefixed token of exactly 20 bytes is rejected, because the
  length test is the strict \<^verbatim>\<open>len(token) > 20\<close>.
\<close>

theorem ValidateToken_twenty_counterexample:
  "length ''ExponentPushToken[A]'' = 20 \<and>
   prefix ''ExponentPushToken['' ''ExponentPushToken[A]'' \<and>
   \<not> ValidateToken ''ExponentPushToken[A]''"
  by (simp add: ValidateToken_def)

section \<open>Properties of the envelope parser and the composer\<close>

lemma parsePrivateChat_keeps:
  "ChatInfoType (parsePrivateChat m p) = ChatInfoType p"
  "ChatType (parsePrivateChat m p) = ChatType p"
  "PinId (parsePrivateChat m p) = PinId p"
  "UserName (parsePrivateChat m p) = UserName p"
  by (simp_all add: parsePrivateChat_def Let_def split: option.splits)

lemma parseGroupChat_keeps:
  "ChatType (parseGroupChat m p) = ChatType p"
  "PinId (parseGroupChat m p) = PinId p"
  "UserName (parseGroupChat m p) = UserName p"
  by (simp_all add: parseGroupChat_def Let_def split: option.splits jvalue.splits)

lemma parseMessageInfo_ChatType:
  "parseMessageInfo chatMsg = Inr info \<Longrightarrow> ChatType info = cm_Type chatMsg"
  by (auto simp: parseMessageInfo_def Let_def parsePrivateChat_keeps parseGroupChat_keeps
      split: option.splits jvalue.splits if_splits)

lemma parseMessageInfo_private_ChatInfoType:
  "cm_Type chatMsg = ''private_chat'' \<Longrightarrow> parseMessageInfo chatMsg = Inr info
     \<Longrightarrow> ChatInfoType info = 0"
  by (auto simp: parseMessageInfo_def Let_def parsePrivateChat_keeps
      split: option.splits jvalue.splits if_splits)

text \<open>The two plain private bodies end in \<open>e\<close>, the Candy Bag body in \<open>g\<close>.\<close>

lemma not_candy_bag_message: "a @ '' sent you a message'' \<noteq> b @ '' sent you a Candy Bag''"
proof
  assume "a @ '' sent you a message'' = b @ '' sent you a Candy Bag''"
  then have "last (a @ '' sent you a message'') = last (b @ '' sent you a Candy Bag'')"
    by (rule arg_cong)
  then show False by simp
qed

lemma not_candy_bag_fallback: "''You have a new message'' \<noteq> b @ '' sent you a Candy Bag''"
proof
  assume "''You have a new message'' = b @ '' sent you a Candy Bag''"
  then have "last ''You have a new message'' = last (b @ '' sent you a Candy Bag'')"
    by (rule arg_cong)
  then show False by simp
qed

lemma private_plain_body:
  "GenerateNotificationBody ''private_chat'' userName 0 False g
     \<noteq> name @ '' sent you a Candy Bag''"
  by (simp add: GenerateNotificationBody_def not_candy_bag_message not_candy_bag_fallback)

text \<open>Likewise the plain mention body ends in \<open>u\<close>.\<close>

lemma not_candy_bag_mention:
  "a @ '' mentioned you'' \<noteq> b @ '' mentioned you with a Candy Bag''"
proof
  assume "a @ '' mentioned you'' = b @ '' mentioned you with a Candy Bag''"
  then have "last (a @ '' mentioned you'') = last (b @ '' mentioned you with a Candy Bag'')"
    by (rule arg_cong)
  then show False by simp
qed

lemma private_mention_body:
  "GenerateNotificationBody ''private_chat'' userName 0 True g
     \<noteq> name @ '' mentioned you with a Candy Bag''"
  by (simp add: GenerateNotificationBody_def Let_def not_candy_bag_mention)

section \<open>Properties of the relay\<close>

subsection \<open>What the two dispatcher calls are made of\<close>

lemma dispatch_call:
  "dispatch pc ps w users title body data = (Some call, w') \<Longrightarrow>
     dc_metaIds call = users \<and> dc_title call = title \<and> dc_body call = body \<and>
     dc_data call = data \<and> users \<noteq> [] \<and>
     (dc_result call, w') = SendToUsersWithData (pushManager pc) ps w users title body data"
  by (auto simp: dispatch_def split: if_splits prod.splits)

lemma processChatMessage_normalCall:
  assumes "processChatMessage pc now ps w chatMsg = (out, w')"
    and "normalCall out = Some call"
  shows "\<exists>info d. parseMessageInfo chatMsg = Inr info \<and> cm_Data chatMsg = Some d \<and>
           dc_metaIds call = filter (\<lambda>metaId. metaId \<notin> set (MentionMetaIds d))
                               (filterBlockedUsers ps (RepostMetaIds d) info) \<and>
           dc_title call = generateNotificationTitle (cm_Type chatMsg) False \<and>
           dc_body call = GenerateNotificationBody (cm_Type chatMsg) (UserName info)
                            (ChatInfoType info) False []"
  using assms
  by (auto simp: processChatMessage_def dropped_def Let_def
      split: sum.splits option.splits if_splits prod.splits dest!: dispatch_call)

lemma processChatMessage_mentionCall:
  assumes "processChatMessage pc now ps w chatMsg = (out, w')"
    and "mentionCall out = Some call"
  shows "\<exists>info d. parseMessageInfo chatMsg = Inr info \<and> cm_Data chatMsg = Some d \<and>
           dc_metaIds call = MentionMetaIds d \<and>
           dc_title call = generateNotificationTitle (cm_Type chatMsg) True \<and>
           dc_body call = GenerateNotificationBody (cm_Type chatMsg) (UserName info)
                            (ChatInfoType info) True (GroupId info)"
  using assms
  by (auto simp: processChatMessage_def dropped_def Let_def
      split: sum.splits option.splits if_splits prod.splits dest!: dispatch_call)

lemma callsOf_cases:
  "call \<in> set (callsOf out) \<Longrightarrow> mentionCall out = Some call \<or> normalCall out = Some call"
  by (auto simp: callsOf_def split: option.splits)

lemma callsOf_dropped: "callsOf dropped = []"
  by (simp add: callsOf_def dropped_def)

lemma length_callsOf: "length (callsOf out) \<le> 2"
  by (simp add: callsOf_def split: option.splits)

subsection \<open>The composed body of a private chat\<close>

text \<open>
  C10. For every private-chat envelope the parsed \<^verbatim>\<open>ChatInfoType\<close> is 0, whatever
  \<^verbatim>\<open>chatType\<close> the message carries (only the group branch of the parser reads it), and so
  the body of the plain (non-mention) notification that envelope processing composes is
  never the Candy Bag variant \<open>name sent you a Candy Bag\<close>, for any name; nor is the body
  of its mention notification the variant \<open>name mentioned you with a Candy Bag\<close>. The rows
  of the compose table for a private chat of type 1 or 23 are out of reach.
\<close>

theorem private_chat_never_candy_bag:
  assumes "cm_Type chatMsg = ''private_chat''"
  shows "(\<forall>info. parseMessageInfo chatMsg = Inr info \<longrightarrow> ChatInfoType info = 0) \<and>
         (\<forall>out w' call name. processChatMessage pc now ps w chatMsg = (out, w') \<longrightarrow>
            normalCall out = Some call \<longrightarrow> dc_body call \<noteq> name @ '' sent you a Candy Bag'') \<and>
         (\<forall>out w' call name. processChatMessage pc now ps w chatMsg = (out, w') \<longrightarrow>
            mentionCall out = Some call \<longrightarrow>
            dc_body call \<noteq> name @ '' mentioned you with a Candy Bag'')"
proof (intro conjI allI impI)
  fix info
  assume "parseMessageInfo chatMsg = Inr info"
  with assms show "ChatInfoType info = 0"
    by (rule parseMessageInfo_private_ChatInfoType)
next
  fix out w' call name
  assume "processChatMessage pc now ps w chatMsg = (out, w')" and "mentionCall out = Some call"
  then obtain info where p: "parseMessageInfo chatMsg = Inr info"
    and b: "dc_body call = GenerateNotificationBody (cm_Type chatMsg) (UserName info)
                            (ChatInfoType info) True (GroupId info)"
    using processChatMessage_mentionCall by blast
  from assms p have "ChatInfoType info = 0"
    by (rule parseMessageInfo_private_ChatInfoType)
  with assms b show "dc_body call \<noteq> name @ '' mentioned you with a Candy Bag''"
    by (simp add: private_mention_body)
next
  fix out w' call name
  assume "processChatMessage pc now ps w chatMsg = (out, w')" and "normalCall out = Some call"
  then obtain info where p: "parseMessageInfo chatMsg = Inr info"
    and b: "dc_body call = GenerateNotificationBody (cm_Type chatMsg) (UserName info)
                            (ChatInfoType info) False []"
    using processChatMessage_normalCall by blast
  from assms p have "ChatInfoType info = 0"
    by (rule parseMessageInfo_private_ChatInfoType)
  with assms b show "dc_body call \<noteq> name @ '' sent you a Candy Bag''"
    by (simp add: private_plain_body)
qed

text \<open>
  The private envelope of the scenarios carries \<^verbatim>\<open>chatType\<close> 1; it is parsed with type 0
  and its plain body is the ordinary one.
\<close>

theorem private_chat_never_candy_bag_witness:
  "cm_Type (privateEnvelope []) = ''private_chat'' \<and>
   map_sum id ChatInfoType (parseMessageInfo (privateEnvelope [])) = Inr 0 \<and>
   map_option dc_body (normalCall (fst (processChatMessage NewPushCenter 0 privateStore
      (newWorld okGateway) (privateEnvelope [])))) = Some ''Alice sent you a message'' \<and>
   map_option dc_body (normalCall (fst (processChatMessage NewPushCenter 0 privateStore
      (newWorld okGateway) (privateEnvelope [])))) \<noteq> Some (''Alice'' @ '' sent you a Candy Bag'')"
proof -
  let ?run = "processChatMessage NewPushCenter 0 privateStore (newWorld okGateway)
                (privateEnvelope [])"
  have t: "cm_Type (privateEnvelope []) = ''private_chat''"
    by (simp add: privateEnvelope_def)
  have p: "map_sum id ChatInfoType (parseMessageInfo (privateEnvelope [])) = Inr 0"
    by code_simp
  have b: "map_option dc_body (normalCall (fst ?run)) = Some ''Alice sent you a message''"
    by code_simp
  have "?run = (fst ?run, snd ?run)" by simp
  with private_chat_never_candy_bag [OF t, of NewPushCenter 0 privateStore "newWorld okGateway"]
  have "\<forall>call. normalCall (fst ?run) = Some call \<longrightarrow>
          dc_body call \<noteq> ''Alice'' @ '' sent you a Candy Bag''"
    by blast
  then have "map_option dc_body (normalCall (fst ?run))
               \<noteq> Some (''Alice'' @ '' sent you a Candy Bag'')"
    by (cases "normalCall (fst ?run)") auto
  with t p b show ?thesis by blast
qed

subsection \<open>Self-suppression and the mute filter\<close>

lemma self_suppressed:
  "ChatType info = ''private_chat''
     \<Longrightarrow> MetaId info \<notin> set (filterBlockedUsers_loop ps info xs)"
  by (induction xs) (auto simp: chatIDOf_def Let_def split: sum.splits)

lemma blocked_filtered:
  "IsUserBlockedChat ps u (chatIDOf info) = Inr True
     \<Longrightarrow> u \<notin> set (filterBlockedUsers_loop ps info xs)"
  by (induction xs) (auto simp: Let_def IsUserBlockedChat_def split: sum.splits if_splits)

lemma filterBlockedUsers_set:
  "set (filterBlockedUsers ps xs info) = set (filterBlockedUsers_loop ps info xs)"
  by (cases xs) (simp_all add: filterBlockedUsers_def)

text \<open>
  C3 (as amended). For every private-chat envelope, the private peer
  (\<^verbatim>\<open>private_meta_id\<close>) never appears among the recipients of the plain call to the
  dispatcher. The mention call is handed \<^verbatim>\<open>mention_meta_ids\<close> exactly as the envelope
  lists them.
\<close>

theorem self_suppression_plain_call:
  assumes "cm_Type chatMsg = ''private_chat''"
    and "parseMessageInfo chatMsg = Inr info"
    and "processChatMessage pc now ps w chatMsg = (out, w')"
  shows "(\<forall>call. normalCall out = Some call \<longrightarrow> MetaId info \<notin> set (dc_metaIds call)) \<and>
         (\<forall>call d. mentionCall out = Some call \<longrightarrow> cm_Data chatMsg = Some d \<longrightarrow>
            dc_metaIds call = MentionMetaIds d)"
proof (intro conjI allI impI)
  fix call
  assume n: "normalCall out = Some call"
  from assms(1,2) have "ChatType info = ''private_chat''"
    by (simp add: parseMessageInfo_ChatType)
  then have "MetaId info \<notin> set (filterBlockedUsers ps xs info)" for xs
    by (simp add: filterBlockedUsers_set self_suppressed)
  with processChatMessage_normalCall [OF assms(3) n] assms(2)
  show "MetaId info \<notin> set (dc_metaIds call)"
    by auto
next
  fix call d
  assume "mentionCall out = Some call" and "cm_Data chatMsg = Some d"
  with processChatMessage_mentionCall [OF assms(3)] show "dc_metaIds call = MentionMetaIds d"
    by auto
qed

theorem self_suppression_plain_call_witness:
  "cm_Type (privateEnvelope []) = ''private_chat'' \<and>
   map_sum id MetaId (parseMessageInfo (privateEnvelope [])) = Inr ''u1'' \<and>
   map_option dc_metaIds (normalCall (fst (processChatMessage NewPushCenter 0 privateStore
      (newWorld okGateway) (privateEnvelope [])))) = Some [''u2''] \<and>
   ''u1'' \<notin> set (case normalCall (fst (processChatMessage NewPushCenter 0 privateStore
                     (newWorld okGateway) (privateEnvelope []))) of
                  None \<Rightarrow> [] | Some call \<Rightarrow> dc_metaIds call)"
proof -
  let ?run = "processChatMessage NewPushCenter 0 privateStore (newWorld okGateway)
                (privateEnvelope [])"
  let ?info = "\<lparr>PinId = ''P1'', GroupId = [], MetaId = ''u1'', ChatType = ''private_chat'',
                 UserName = ''Alice'', ChatInfoType = 0\<rparr>"
  have t: "cm_Type (privateEnvelope []) = ''private_chat''"
    by (simp add: privateEnvelope_def)
  have p: "parseMessageInfo (privateEnvelope []) = Inr ?info"
    by code_simp
  have r: "map_option dc_metaIds (normalCall (fst ?run)) = Some [''u2'']"
    by code_simp
  have "?run = (fst ?run, snd ?run)" by simp
  from self_suppression_plain_call [OF t p this]
  have "\<forall>call. normalCall (fst ?run) = Some call \<longrightarrow> ''u1'' \<notin> set (dc_metaIds call)"
    by simp
  then have "''u1'' \<notin> set (case normalCall (fst ?run) of None \<Rightarrow> [] | Some call \<Rightarrow> dc_metaIds call)"
    by (cases "normalCall (fst ?run)") auto
  with t p r show ?thesis by simp
qed

text \<open>
  C3 as stated fails for the mention call: a private-chat envelope from \<open>u1\<close> that lists
  \<open>u1\<close> as mentioned hands \<open>u1\<close> to the dispatcher in the mention call.
\<close>

theorem self_suppression_mention_counterexample:
  "cm_Type (privateEnvelope [''u1'']) = ''private_chat'' \<and>
   map_sum id MetaId (parseMessageInfo (privateEnvelope [''u1''])) = Inr ''u1'' \<and>
   map_option dc_metaIds (mentionCall (fst (processChatMessage NewPushCenter 0 privateStore
      (newWorld okGateway) (privateEnvelope [''u1''])))) = Some [''u1'']"
  by code_simp

subsection \<open>Results only for the recipients handed over\<close>

lemma sendSingleNotification_MetaID:
  "sendSingleNotification w metaId platform token provider n = (r, w') \<Longrightarrow> pr_MetaID r = metaId"
  by (auto simp: sendSingleNotification_def Let_def split: if_splits prod.splits sum.splits)

lemma sendToPlatforms_ids:
  "pr_MetaID ` set (fst (sendToPlatforms s n metaId toks acc))
     \<subseteq> insert metaId (pr_MetaID ` set (fst acc))"
proof (induction toks arbitrary: acc)
  case Nil
  then show ?case by auto
next
  case (Cons pt toks)
  obtain platform token where pt: "pt = (platform, token)" by (cases pt)
  show ?case
  proof (cases "providers s platform")
    case None
    with Cons.IH [of acc] pt show ?thesis by simp
  next
    case (Some provider)
    obtain r w' where
      r: "sendSingleNotification (snd acc) metaId platform token provider n = (r, w')"
      by (cases "sendSingleNotification (snd acc) metaId platform token provider n")
    then have "pr_MetaID r = metaId" by (rule sendSingleNotification_MetaID)
    with Cons.IH [of "(fst acc @ [r], w')"] pt Some r show ?thesis by auto
  qed
qed

lemma sendToAll_ids:
  "pr_MetaID ` set (fst (sendToAll s n al acc)) \<subseteq> fst ` set al \<union> pr_MetaID ` set (fst acc)"
proof (induction al arbitrary: acc)
  case Nil
  then show ?case by simp
next
  case (Cons a al)
  obtain metaId ut where a: "a = (metaId, ut)" by (cases a)
  from Cons.IH [of "sendToPlatforms s n metaId (upt_Tokens ut) acc"]
    sendToPlatforms_ids [of s n metaId "upt_Tokens ut" acc] a
  show ?case by auto
qed

lemma update_keys_subset: "fst ` set (AList.update k v al) \<subseteq> insert k (fst ` set al)"
  by (induction al) auto

lemma GetAllUserTokens_loop_keys:
  "fst ` set (GetAllUserTokens_loop ps ms r) \<subseteq> set ms \<union> fst ` set r"
proof (induction ms arbitrary: r)
  case Nil
  then show ?case by simp
next
  case (Cons m ms)
  show ?case
  proof -
    have "fst ` set (GetAllUserTokens_loop ps (m # ms) r)
        \<subseteq> set ms \<union> fst ` set (AList.update m
             (case GetUserTokens ps m of Inl err \<Rightarrow> \<lparr>upt_MetaID = m, upt_Tokens = []\<rparr>
              | Inr userTokens \<Rightarrow> userTokens) r)"
      using Cons.IH by simp
    also have "\<dots> \<subseteq> set ms \<union> insert m (fst ` set r)"
      using update_keys_subset by (metis Un_mono subset_refl)
    finally show ?thesis by auto
  qed
qed

lemma SendToUsers_ids:
  assumes "SendToUsers s ps w metaIds n = (res, w')"
  shows "pr_MetaID ` set (Results res) \<subseteq> set metaIds"
proof (cases "length metaIds = 0")
  case True
  with assms show ?thesis by (auto simp: SendToUsers_def)
next
  case False
  with assms have "Results res = fst (sendToAll s n (GetAllUserTokens ps metaIds) ([], w))"
    by (auto simp: SendToUsers_def split: prod.splits)
  moreover have "pr_MetaID ` set (fst (sendToAll s n (GetAllUserTokens ps metaIds) ([], w)))
      \<subseteq> fst ` set (GetAllUserTokens ps metaIds)"
    using sendToAll_ids [of s n "GetAllUserTokens ps metaIds" "([], w)"] by simp
  moreover have "fst ` set (GetAllUserTokens ps metaIds) \<subseteq> set metaIds"
    using GetAllUserTokens_loop_keys [of ps metaIds "[]"] by (simp add: GetAllUserTokens_def)
  ultimately show ?thesis by simp
qed

lemma SendToUsers_member:
  "SendToUsers s ps w metaIds n = (res, w') \<Longrightarrow> r \<in> set (Results res)
     \<Longrightarrow> pr_MetaID r \<in> set metaIds"
  using SendToUsers_ids by blast

lemma dispatch_result_ids:
  assumes "dispatch pc ps w users title body data = (Some call, w')"
    and "r \<in> set (Results (dc_result call))"
  shows "pr_MetaID r \<in> set (dc_metaIds call)"
proof -
  from assms(1) have "dc_metaIds call = users"
    and "(dc_result call, w') = SendToUsersWithData (pushManager pc) ps w users title body data"
    by (auto dest: dispatch_call)
  with assms(2) show ?thesis
    by (metis SendToUsersWithData_def SendToUsers_member)
qed

lemma processChatMessage_result_ids:
  assumes "processChatMessage pc now ps w chatMsg = (out, w')"
    and "call \<in> set (callsOf out)"
    and "r \<in> set (Results (dc_result call))"
  shows "pr_MetaID r \<in> set (dc_metaIds call)"
proof -
  from assms(1,2) obtain w0 users title body data w1
    where "dispatch pc ps w0 users title body data = (Some call, w1)"
    by (auto simp: processChatMessage_def dropped_def Let_def callsOf_def
        split: sum.splits option.splits if_splits prod.splits)
  then show ?thesis using assms(3) by (rule dispatch_result_ids)
qed

text \<open>
  C2. If \<^verbatim>\<open>is_user_blocked_chat(u, c)\<close> returns true and the chat id derived from the
  envelope is \<open>c\<close>, then, unless \<open>u\<close> is listed in the envelope's \<^verbatim>\<open>mention_meta_ids\<close>, no call
  to the dispatcher has \<open>u\<close> among its recipients and no batch result of the envelope
  holds a \<^verbatim>\<open>PushResult\<close> for \<open>u\<close>.
\<close>

theorem mute_correctness:
  assumes "IsUserBlockedChat ps u c = Inr True"
    and "parseMessageInfo chatMsg = Inr info"
    and "chatIDOf info = c"
    and "cm_Data chatMsg = Some d"
    and "u \<notin> set (MentionMetaIds d)"
    and "processChatMessage pc now ps w chatMsg = (out, w')"
  shows "\<forall>call \<in> set (callsOf out).
           u \<notin> set (dc_metaIds call) \<and>
           (\<forall>r \<in> set (Results (dc_result call)). pr_MetaID r \<noteq> u)"
proof
  fix call
  assume c: "call \<in> set (callsOf out)"
  have "u \<notin> set (dc_metaIds call)"
  proof (cases "mentionCall out = Some call")
    case True
    with processChatMessage_mentionCall [OF assms(6)] assms(4,5) show ?thesis by auto
  next
    case False
    with c have n: "normalCall out = Some call"
      by (auto dest: callsOf_cases)
    have "u \<notin> set (filterBlockedUsers ps xs info)" for xs
      using assms(1,3) by (simp add: filterBlockedUsers_set blocked_filtered)
    with processChatMessage_normalCall [OF assms(6) n] assms(2) show ?thesis by auto
  qed
  moreover have "pr_MetaID r \<in> set (dc_metaIds call)"
    if "r \<in> set (Results (dc_result call))" for r
    using assms(6) c that by (rule processChatMessage_result_ids)
  ultimately show "u \<notin> set (dc_metaIds call) \<and>
      (\<forall>r \<in> set (Results (dc_result call)). pr_MetaID r \<noteq> u)"
    by auto
qed

text \<open>
  In the group scenario \<open>u3\<close> has muted \<open>g1\<close> and both users hold a token: the only push
  result of the envelope is for \<open>u4\<close>.
\<close>

theorem mute_correctness_witness:
  "IsUserBlockedChat groupStore ''u3'' ''g1'' = Inr True \<and>
   map_sum id chatIDOf (parseMessageInfo (groupEnvelope [])) = Inr ''g1'' \<and>
   map_option MentionMetaIds (cm_Data (groupEnvelope [])) = Some [] \<and>
   map (\<lambda>call. map pr_MetaID (Results (dc_result call)))
     (callsOf (fst (processChatMessage NewPushCenter 0 groupStore (newWorld okGateway)
        (groupEnvelope [])))) = [[''u4'']] \<and>
   ''u3'' \<notin> set (concat (map (\<lambda>call. map pr_MetaID (Results (dc_result call)))
     (callsOf (fst (processChatMessage NewPushCenter 0 groupStore (newWorld okGateway)
        (groupEnvelope []))))))"
proof -
  let ?info = "\<lparr>PinId = ''P2'', GroupId = ''g1'', MetaId = [], ChatType = ''group_chat'',
                 UserName = ''Bob'', ChatInfoType = 1\<rparr>"
  let ?d = "\<lparr>esm_Message =
           JMap [(''pinId'', JString ''P2''), (''groupId'', JString ''g1''),
                 (''userInfo'', JMap [(''name'', JString ''Bob'')]),
                 (''chatType'', JFloat64 1)],
         RepostMetaIds = [''u3'', ''u4''], MentionMetaIds = []\<rparr>"
  let ?run = "processChatMessage NewPushCenter 0 groupStore (newWorld okGateway)
                (groupEnvelope [])"
  have h1: "IsUserBlockedChat groupStore ''u3'' ''g1'' = Inr True" by code_simp
  have h2: "parseMessageInfo (groupEnvelope []) = Inr ?info" by code_simp
  have h3: "chatIDOf ?info = ''g1''" by code_simp
  have h4: "cm_Data (groupEnvelope []) = Some ?d" by (simp add: groupEnvelope_def)
  have h5: "''u3'' \<notin> set (MentionMetaIds ?d)" by simp
  have h6: "?run = (fst ?run, snd ?run)" by simp
  have r: "map (\<lambda>call. map pr_MetaID (Results (dc_result call))) (callsOf (fst ?run))
             = [[''u4'']]"
    by code_simp
  from mute_correctness [OF h1 h2 h3 h4 h5 h6]
  have "''u3'' \<notin> set (concat (map (\<lambda>call. map pr_MetaID (Results (dc_result call)))
     (callsOf (fst ?run))))"
    by force
  with h1 h2 h3 h4 r show ?thesis
    by simp
qed

subsection \<open>PIN-level deduplication\<close>

lemma processChatMessage_dedup:
  assumes "pin \<noteq> []" and "pinOf chatMsg = pin" and "dedupDrops ps pin"
  shows "processChatMessage pc now ps w chatMsg = (dropped, w)"
  using assms
  by (auto simp: processChatMessage_def pinOf_def dedupDrops_def split: sum.splits)

lemma handleChatMessage_dedup:
  assumes "pin \<noteq> []" and "pinOf chatMsg = pin" and "dedupDrops ps pin"
  shows "handleChatMessage pc now ps w chatMsg = (dropped, w)"
  using processChatMessage_dedup [OF assms] by (simp add: handleChatMessage_def)

lemma processChatMessage_spawns:
  assumes "processChatMessage pc now ps w chatMsg = (out, w')"
    and "callsOf out \<noteq> []" and "pinOf chatMsg = pin" and "pin \<noteq> []"
  shows "spawnedPin out = Some pin"
  using assms
  by (auto simp: processChatMessage_def pinOf_def callsOf_dropped Let_def
      split: sum.splits option.splits if_splits prod.splits)

lemma handleChatMessage_spawns:
  assumes "handleChatMessage pc now ps w chatMsg = (out, w')"
    and "callsOf out \<noteq> []" and "pinOf chatMsg = pin" and "pin \<noteq> []"
  shows "spawnedPin out = Some pin"
  using assms processChatMessage_spawns
  by (auto simp: handleChatMessage_def callsOf_dropped split: if_splits)

lemma AddNotifiedPin_recorded:
  "AddNotifiedPin ps pin = Inr ps' \<Longrightarrow> IsNotifiedPin ps' pin = Inr True"
  by (auto simp: AddNotifiedPin_def PebbleService_AddNotifiedPin_def IsNotifiedPin_def
      PebbleService_IsNotifiedPin_def split: if_splits)

text \<open>
  After the spawned \<^verbatim>\<open>AddNotifiedPin\<close> has run, the dedup step drops the PIN: either the
  record is there, or the collection is unavailable and the lookup fails, which drops the
  envelope as well. Recording another PIN changes neither.
\<close>

lemma recordPin_blocks: "pin \<noteq> [] \<Longrightarrow> dedupDrops (recordPin ps (Some pin)) pin"
  by (auto simp: recordPin_def dedupDrops_def AddNotifiedPin_def PebbleService_AddNotifiedPin_def
      IsNotifiedPin_def PebbleService_IsNotifiedPin_def split: sum.splits if_splits)

lemma recordPin_keeps: "dedupDrops ps pin \<Longrightarrow> dedupDrops (recordPin ps spawned) pin"
  by (auto simp: recordPin_def dedupDrops_def AddNotifiedPin_def PebbleService_AddNotifiedPin_def
      IsNotifiedPin_def PebbleService_IsNotifiedPin_def split: sum.splits if_splits option.splits)

lemma callsForPin_snoc:
  "callsForPin pin (entries @ [(chatMsg, out)])
     = callsForPin pin entries @ (if pinOf chatMsg = pin then callsOf out else [])"
  by (simp add: callsForPin_def)

lemma fanOutsForPin_snoc:
  "fanOutsForPin pin (entries @ [(chatMsg, out)])
     = fanOutsForPin pin entries + (if pinOf chatMsg = pin \<and> callsOf out \<noteq> [] then 1 else 0)"
  by (simp add: fanOutsForPin_def)

lemma runEvents_Nil: "runEvents pc r [] = r"
  by (simp add: runEvents_def)

lemma runEvents_Cons: "runEvents pc r (e # events) = runEvents pc (relayStep pc r e) events"
  by (simp add: runEvents_def)

lemma runEvents_append:
  "runEvents pc r (events @ events') = runEvents pc (runEvents pc r events) events'"
  by (simp add: runEvents_def)

text \<open>
  Once the PIN is recorded, no schedule brings an envelope with that PIN to the
  dispatcher again: whatever events follow, the calls made for the PIN stay as they are.
\<close>

lemma relayStep_keeps:
  assumes "pin \<noteq> []" and "dedupDrops (rl_store r) pin"
  shows "dedupDrops (rl_store (relayStep pc r e)) pin \<and>
         callsForPin pin (rl_log (relayStep pc r e)) = callsForPin pin (rl_log r) \<and>
         fanOutsForPin pin (rl_log (relayStep pc r e)) = fanOutsForPin pin (rl_log r)"
proof (cases e)
  case (Frame now chatMsg)
  obtain out w' where h: "handleChatMessage pc now (rl_store r) (rl_world r) chatMsg = (out, w')"
    by (cases "handleChatMessage pc now (rl_store r) (rl_world r) chatMsg")
  have "pinOf chatMsg = pin \<Longrightarrow> out = dropped"
    using handleChatMessage_dedup [OF assms(1) _ assms(2), of chatMsg pc now "rl_world r"] h
    by simp
  then have "pinOf chatMsg = pin \<Longrightarrow> callsOf out = []"
    by (simp add: callsOf_dropped)
  with Frame h assms(2) show ?thesis
    by (auto simp: callsForPin_snoc fanOutsForPin_snoc)
next
  case (PinWrite i)
  with assms(2) show ?thesis
    by (simp add: recordPin_keeps)
qed

lemma runEvents_after_record:
  assumes "pin \<noteq> []"
  shows "dedupDrops (rl_store r) pin \<Longrightarrow>
         dedupDrops (rl_store (runEvents pc r events)) pin \<and>
         callsForPin pin (rl_log (runEvents pc r events)) = callsForPin pin (rl_log r) \<and>
         fanOutsForPin pin (rl_log (runEvents pc r events)) = fanOutsForPin pin (rl_log r)"
proof (induction events arbitrary: r)
  case Nil
  then show ?case by (simp add: runEvents_Nil)
next
  case (Cons e events)
  from relayStep_keeps [OF assms Cons.prems, of pc e] Cons.IH [of "relayStep pc r e"]
  show ?case by (simp add: runEvents_Cons)
qed

text \<open>
  When the frames are processed one at a time, each write running before the next frame,
  at most one envelope with a given PIN reaches the dispatcher, with its one call or two.
\<close>

lemma oneAtATime_bounds:
  assumes "pin \<noteq> []"
  shows "rl_pending r = [] \<Longrightarrow>
         fanOutsForPin pin (rl_log (runEvents pc r (oneAtATime envs)))
           \<le> fanOutsForPin pin (rl_log r) + 1 \<and>
         length (callsForPin pin (rl_log (runEvents pc r (oneAtATime envs))))
           \<le> length (callsForPin pin (rl_log r)) + 2"
proof (induction envs arbitrary: r)
  case Nil
  then show ?case by (simp add: oneAtATime_def runEvents_Nil)
next
  case (Cons e envs)
  obtain now chatMsg where e: "e = (now, chatMsg)" by (cases e)
  obtain out w' where h: "handleChatMessage pc now (rl_store r) (rl_world r) chatMsg = (out, w')"
    by (cases "handleChatMessage pc now (rl_store r) (rl_world r) chatMsg")
  let ?r1 = "relayStep pc r (Frame now chatMsg)"
  let ?r2 = "relayStep pc ?r1 (PinWrite 0)"
  have run: "runEvents pc r (oneAtATime (e # envs)) = runEvents pc ?r2 (oneAtATime envs)"
    by (simp add: oneAtATime_def e runEvents_Cons)
  have lg: "rl_log ?r2 = rl_log r @ [(chatMsg, out)]"
    using h by simp
  have pend: "rl_pending ?r2 = []"
    using h Cons.prems by (cases "spawnedPin out") simp_all
  have store: "rl_store ?r2 = recordPin (rl_store r) (spawnedPin out)"
    using h Cons.prems by (cases "spawnedPin out") (simp_all add: recordPin_def)
  show ?case
  proof (cases "pinOf chatMsg = pin \<and> callsOf out \<noteq> []")
    case True
    with h assms have "spawnedPin out = Some pin"
      using handleChatMessage_spawns by blast
    with assms store have "dedupDrops (rl_store ?r2) pin"
      by (simp add: recordPin_blocks)
    from runEvents_after_record [OF assms this, of pc "oneAtATime envs"]
    have "callsForPin pin (rl_log (runEvents pc ?r2 (oneAtATime envs)))
            = callsForPin pin (rl_log ?r2)"
      and "fanOutsForPin pin (rl_log (runEvents pc ?r2 (oneAtATime envs)))
            = fanOutsForPin pin (rl_log ?r2)"
      by simp_all
    with True length_callsOf [of out] show ?thesis
      unfolding run lg by (simp add: callsForPin_snoc fanOutsForPin_snoc)
  next
    case False
    then have "callsForPin pin (rl_log ?r2) = callsForPin pin (rl_log r)"
      and "fanOutsForPin pin (rl_log ?r2) = fanOutsForPin pin (rl_log r)"
      unfolding lg by (auto simp: callsForPin_snoc fanOutsForPin_snoc)
    with Cons.IH [OF pend] show ?thesis
      unfolding run by simp
  qed
qed

lemma recorded_pin_is_dropped:
  assumes "pin \<noteq> []" and "AddNotifiedPin ps0 pin = Inr ps1" and "pinOf chatMsg = pin"
  shows "IsNotifiedPin ps1 pin = Inr True \<and>
         processChatMessage pc now ps1 w1 chatMsg = (dropped, w1)"
proof -
  from assms(2) have r: "IsNotifiedPin ps1 pin = Inr True"
    by (rule AddNotifiedPin_recorded)
  then have "dedupDrops ps1 pin" by (simp add: dedupDrops_def)
  with assms(1,3) have "processChatMessage pc now ps1 w1 chatMsg = (dropped, w1)"
    by (rule processChatMessage_dedup)
  with r show ?thesis by simp
qed

text \<open>
  The private envelope processed twice, one frame at a time: the first frame calls the
  dispatcher once, for \<open>u2\<close>; the replay calls nothing.
\<close>

lemma oneAtATime_example:
  "map (\<lambda>(chatMsg, out). map dc_metaIds (callsOf out))
     (rl_log (runEvents NewPushCenter (newRelay privateStore (newWorld okGateway))
        (oneAtATime [(0, privateEnvelope []), (1, privateEnvelope [])])))
     = [[[''u2'']], []]"
  by code_simp

text \<open>
  C1. For envelopes with an identical non-empty \<^verbatim>\<open>pin_id\<close> the dispatcher is to be invoked
  for one of them at most. The code looks the PIN up at the start of
  \<^verbatim>\<open>processChatMessage\<close> and writes it from a goroutine started after the sends, and two
  frames are processed by two goroutines: when the second frame is looked up before the
  write of the first has run, both pass the dedup step. Here the private envelope with
  the PIN \<open>P1\<close> arrives twice; both frames are processed before the two writes run. Each of
  them reaches the dispatcher, \<open>u2\<close> is notified twice for the one PIN, and the PIN is on
  record only afterwards.
\<close>

theorem dedup_race:
  "pinOf (privateEnvelope []) = ''P1'' \<and>
   map (\<lambda>(chatMsg, out). map dc_metaIds (callsOf out))
     (rl_log (runEvents NewPushCenter (newRelay privateStore (newWorld okGateway))
        [Frame 0 (privateEnvelope []), Frame 1 (privateEnvelope []), PinWrite 0, PinWrite 0]))
     = [[[''u2'']], [[''u2'']]] \<and>
   fanOutsForPin ''P1''
     (rl_log (runEvents NewPushCenter (newRelay privateStore (newWorld okGateway))
        [Frame 0 (privateEnvelope []), Frame 1 (privateEnvelope []), PinWrite 0, PinWrite 0]))
     = 2 \<and>
   IsNotifiedPin
     (rl_store (runEvents NewPushCenter (newRelay privateStore (newWorld okGateway))
        [Frame 0 (privateEnvelope []), Frame 1 (privateEnvelope [])])) ''P1'' = Inr False \<and>
   IsNotifiedPin
     (rl_store (runEvents NewPushCenter (newRelay privateStore (newWorld okGateway))
        [Frame 0 (privateEnvelope []), Frame 1 (privateEnvelope []), PinWrite 0, PinWrite 0]))
     ''P1'' = Inr True"
  by code_simp

section \<open>Properties of the store\<close>

subsection \<open>Token transfer\<close>

lemma SaveUserTokens_Inr:
  "SaveUserTokens ps v = Inr ps' \<Longrightarrow>
     upt_MetaID v \<noteq> [] \<and> \<not> unavailable ps CollectionUserTokens \<and>
     ps' = ps\<lparr>user_tokens := (user_tokens ps)(upt_MetaID v \<mapsto> v)\<rparr>"
  by (auto simp: SaveUserTokens_def split: if_splits)

lemma SaveDeviceInfo_Inr:
  "SaveDeviceInfo ps d = Inr ps' \<Longrightarrow>
     dev_DeviceID d \<noteq> [] \<and> dev_Platform d \<noteq> [] \<and> dev_MetaID d \<noteq> [] \<and>
     \<not> unavailable ps CollectionDevices \<and>
     ps' = ps\<lparr>devices := (devices ps)(dev_DeviceID d \<mapsto> d)\<rparr>"
  by (auto simp: SaveDeviceInfo_def split: if_splits)

lemma GetUserTokens_Inr:
  "store_consistent ps \<Longrightarrow> GetUserTokens ps m = Inr v \<Longrightarrow>
     upt_MetaID v = m \<and> m \<noteq> [] \<and> \<not> unavailable ps CollectionUserTokens \<and>
     upt_Tokens v = (case user_tokens ps m of None \<Rightarrow> [] | Some u \<Rightarrow> upt_Tokens u)"
  by (auto simp: GetUserTokens_def store_consistent_def split: if_splits option.splits)

lemma GetDeviceInfo_Inr:
  "store_consistent ps \<Longrightarrow> GetDeviceInfo ps t = Inr d \<Longrightarrow>
     devices ps t = Some d \<and> dev_DeviceID d = t \<and> t \<noteq> [] \<and> \<not> unavailable ps CollectionDevices"
  by (auto simp: GetDeviceInfo_def store_consistent_def split: if_splits option.splits)

lemma scrubOldOwner_frame:
  assumes "store_consistent ps"
  shows "store_consistent (scrubOldOwner ps d m p t) \<and>
         devices (scrubOldOwner ps d m p t) = devices ps \<and>
         unavailable (scrubOldOwner ps d m p t) = unavailable ps \<and>
         (\<forall>k. k \<noteq> dev_MetaID d \<longrightarrow> user_tokens (scrubOldOwner ps d m p t) k = user_tokens ps k)"
proof (cases "dev_MetaID d \<noteq> m")
  case False
  with assms show ?thesis by (simp add: scrubOldOwner_def)
next
  case True
  show ?thesis
  proof (cases "GetUserTokens ps (dev_MetaID d)")
    case (Inl e)
    with assms True show ?thesis by (simp add: scrubOldOwner_def)
  next
    case (Inr old)
    note g = GetUserTokens_Inr [OF assms Inr]
    show ?thesis
    proof (cases "map_of (upt_Tokens old) p = Some t")
      case False
      with assms True Inr show ?thesis by (simp add: scrubOldOwner_def)
    next
      case tok: True
      let ?new = "old\<lparr>upt_Tokens := AList.delete p (upt_Tokens old)\<rparr>"
      from g have s: "SaveUserTokens ps ?new
          = Inr (ps\<lparr>user_tokens := (user_tokens ps)(dev_MetaID d \<mapsto> ?new)\<rparr>)"
        by (simp add: SaveUserTokens_def)
      with True Inr tok have "scrubOldOwner ps d m p t
          = ps\<lparr>user_tokens := (user_tokens ps)(dev_MetaID d \<mapsto> ?new)\<rparr>"
        by (simp add: scrubOldOwner_def)
      with assms g show ?thesis by (auto simp: store_consistent_def)
    qed
  qed
qed

lemma scrubOldOwner_removes:
  assumes "store_consistent ps" and "dev_MetaID d \<noteq> m"
    and "user_tokens ps (dev_MetaID d) = Some old" and "map_of (upt_Tokens old) p = Some t"
    and "\<not> unavailable ps CollectionUserTokens" and "dev_MetaID d \<noteq> []"
  shows "\<exists>v. user_tokens (scrubOldOwner ps d m p t) (dev_MetaID d) = Some v \<and>
             map_of (upt_Tokens v) p = None"
proof -
  from assms have g: "GetUserTokens ps (dev_MetaID d) = Inr old"
    by (simp add: GetUserTokens_def)
  from assms(1,3) have "upt_MetaID old = dev_MetaID d"
    by (simp add: store_consistent_def)
  with assms g show ?thesis
    by (simp add: scrubOldOwner_def SaveUserTokens_def delete_conv')
qed

lemma bindDevice_success:
  assumes "store_consistent ps" and "bindDevice ps m p t = (ps', None)" and "t \<noteq> []"
  shows "store_consistent ps' \<and> unavailable ps' = unavailable ps \<and>
         \<not> unavailable ps CollectionDevices \<and>
         devices ps' t = Some \<lparr>dev_DeviceID = t, dev_Platform = p, dev_MetaID = m\<rparr> \<and>
         (\<forall>k. (\<forall>d. devices ps t = Some d \<longrightarrow> k \<noteq> dev_MetaID d) \<longrightarrow> user_tokens ps' k = user_tokens ps k)"
proof (cases "GetDeviceInfo ps t")
  case (Inl e)
  with assms(2) obtain a: "SaveDeviceInfo ps \<lparr>dev_DeviceID = t, dev_Platform = p, dev_MetaID = m\<rparr> = Inr ps'"
    by (auto simp: bindDevice_def split: sum.splits)
  from SaveDeviceInfo_Inr [OF a] assms(1) show ?thesis
    by (auto simp: store_consistent_def)
next
  case (Inr d)
  note g = GetDeviceInfo_Inr [OF assms(1) Inr]
  let ?ps1 = "scrubOldOwner ps d m p t"
  note f = scrubOldOwner_frame [OF assms(1), of d m p t]
  from assms(2) Inr have a: "SaveDeviceInfo ?ps1 (d\<lparr>dev_MetaID := m, dev_Platform := p\<rparr>) = Inr ps'"
    by (auto simp: bindDevice_def Let_def split: sum.splits)
  from SaveDeviceInfo_Inr [OF a] g f show ?thesis
    by (auto simp: store_consistent_def)
qed

lemma SetUserToken_success:
  assumes "store_consistent ps" and "SetUserToken ps m p t = (ps', None)"
  shows "store_consistent ps' \<and> unavailable ps' = unavailable ps \<and>
         \<not> unavailable ps CollectionDevices \<and> \<not> unavailable ps CollectionUserTokens \<and>
         m \<noteq> [] \<and> p \<noteq> [] \<and> t \<noteq> [] \<and>
         devices ps' t = Some \<lparr>dev_DeviceID = t, dev_Platform = p, dev_MetaID = m\<rparr> \<and>
         (\<exists>v. user_tokens ps' m = Some v \<and> map_of (upt_Tokens v) p = Some t)"
proof -
  from assms(2) have ne: "m \<noteq> []" "p \<noteq> []" "t \<noteq> []"
    by (auto simp: SetUserToken_def split: if_splits)
  from assms(2) ne obtain ps2 v where b: "bindDevice ps m p t = (ps2, None)"
    and g: "GetUserTokens ps2 m = Inr v"
    and s: "SaveUserTokens ps2 (v\<lparr>upt_Tokens := AList.update p t (upt_Tokens v)\<rparr>) = Inr ps'"
    by (auto simp: SetUserToken_def split: prod.splits option.splits sum.splits)
  note bs = bindDevice_success [OF assms(1) b ne(3)]
  then have c2: "store_consistent ps2" by simp
  note gs = GetUserTokens_Inr [OF c2 g]
  note ss = SaveUserTokens_Inr [OF s]
  from bs gs ss ne show ?thesis
    by (auto simp: store_consistent_def update_conv')
qed

lemma SetUserToken_transfer:
  assumes "store_consistent ps"
    and "devices ps t = Some \<lparr>dev_DeviceID = t, dev_Platform = p, dev_MetaID = a\<rparr>"
    and "user_tokens ps a = Some v" and "map_of (upt_Tokens v) p = Some t"
    and "a \<noteq> b" and "a \<noteq> []"
    and "SetUserToken ps b p t = (ps', None)"
  shows "\<exists>v'. user_tokens ps' a = Some v' \<and> map_of (upt_Tokens v') p = None"
proof -
  let ?d = "\<lparr>dev_DeviceID = t, dev_Platform = p, dev_MetaID = a\<rparr>"
  note su = SetUserToken_success [OF assms(1,7)]
  then have ne: "b \<noteq> []" "p \<noteq> []" "t \<noteq> []" and av: "\<not> unavailable ps CollectionDevices"
      "\<not> unavailable ps CollectionUserTokens"
    by simp_all
  from assms(2) ne av have gd: "GetDeviceInfo ps t = Inr ?d"
    by (simp add: GetDeviceInfo_def)
  let ?ps1 = "scrubOldOwner ps ?d b p t"
  from scrubOldOwner_removes [where ps = ps and d = "?d" and m = b and p = p and t = t and old = v]
    assms av
  obtain v1 where v1: "user_tokens ?ps1 a = Some v1" "map_of (upt_Tokens v1) p = None"
    by auto
  note f = scrubOldOwner_frame [OF assms(1), of ?d b p t]
  from assms(7) ne gd obtain ps2 u where
    sd: "SaveDeviceInfo ?ps1 (?d\<lparr>dev_MetaID := b, dev_Platform := p\<rparr>) = Inr ps2"
    and g: "GetUserTokens ps2 b = Inr u"
    and s: "SaveUserTokens ps2 (u\<lparr>upt_Tokens := AList.update p t (upt_Tokens u)\<rparr>) = Inr ps'"
    by (auto simp: SetUserToken_def bindDevice_def Let_def split: prod.splits option.splits sum.splits)
  from SaveDeviceInfo_Inr [OF sd] have p2: "user_tokens ps2 = user_tokens ?ps1"
    by simp
  from SaveDeviceInfo_Inr [OF sd] f have c2: "store_consistent ps2"
    by (auto simp: store_consistent_def)
  note gs = GetUserTokens_Inr [OF c2 g]
  from SaveUserTokens_Inr [OF s] gs assms(5) p2 have "user_tokens ps' a = user_tokens ?ps1 a"
    by auto
  with v1 show ?thesis by simp
qed

text \<open>
  On such a store a call with non-empty arguments succeeds whenever the two collections
  can be opened.
\<close>

lemma bindDevice_succeeds:
  assumes "store_consistent ps" and "m \<noteq> []" and "p \<noteq> []" and "t \<noteq> []"
    and "\<not> unavailable ps CollectionDevices"
  shows "snd (bindDevice ps m p t) = None"
proof (cases "GetDeviceInfo ps t")
  case (Inl e)
  with assms show ?thesis
    by (simp add: bindDevice_def SaveDeviceInfo_def)
next
  case (Inr d)
  from GetDeviceInfo_Inr [OF assms(1) Inr] have "dev_DeviceID d = t" by simp
  moreover from scrubOldOwner_frame [OF assms(1), of d m p t]
  have "unavailable (scrubOldOwner ps d m p t) = unavailable ps" by simp
  ultimately show ?thesis using Inr assms
    by (simp add: bindDevice_def SaveDeviceInfo_def Let_def)
qed

lemma SetUserToken_succeeds:
  assumes "store_consistent ps" and "m \<noteq> []" and "p \<noteq> []" and "t \<noteq> []"
    and "\<not> unavailable ps CollectionDevices" and "\<not> unavailable ps CollectionUserTokens"
  shows "snd (SetUserToken ps m p t) = None"
proof -
  obtain ps2 where b: "bindDevice ps m p t = (ps2, None)"
    using bindDevice_succeeds [OF assms(1-5)] by (metis prod.collapse)
  from bindDevice_success [OF assms(1) b assms(4)]
  have c2: "store_consistent ps2" and u2: "unavailable ps2 = unavailable ps"
    by simp_all
  from u2 assms(2,6) obtain v where g: "GetUserTokens ps2 m = Inr v"
    by (cases "user_tokens ps2 m") (auto simp: GetUserTokens_def)
  from GetUserTokens_Inr [OF c2 g] have "upt_MetaID v = m" by simp
  with assms(2,3,4,6) u2 b g show ?thesis
    by (simp add: SetUserToken_def SaveUserTokens_def)
qed

text \<open>
  C4. On a store in which every value lies under its own key, after a successful
  \<^verbatim>\<open>set_user_token(A, P, T)\<close> followed by a successful \<^verbatim>\<open>set_user_token(B, P, T)\<close> with
  \<open>A \<noteq> B\<close>, the tokens of \<open>A\<close> have no entry for \<open>P\<close>, the tokens of \<open>B\<close> have \<open>T\<close> under
  \<open>P\<close>, and the device binding of \<open>T\<close> points at \<open>B\<close> (and at the platform \<open>P\<close>): the token is
  bound to one user at a time.
\<close>

theorem token_transfer:
  assumes "store_consistent ps"
    and "A \<noteq> B"
    and "SetUserToken ps A P T = (ps1, None)"
    and "SetUserToken ps1 B P T = (ps2, None)"
  shows "(\<exists>ua. GetUserTokens ps2 A = Inr ua \<and> map_of (upt_Tokens ua) P = None) \<and>
         (\<exists>ub. GetUserTokens ps2 B = Inr ub \<and> map_of (upt_Tokens ub) P = Some T) \<and>
         (\<exists>d. GetDeviceInfo ps2 T = Inr d \<and> dev_MetaID d = B \<and> dev_Platform d = P)"
proof -
  note s1 = SetUserToken_success [OF assms(1,3)]
  then have c1: "store_consistent ps1" by simp
  note s2 = SetUserToken_success [OF c1 assms(4)]
  from s1 obtain v where v: "user_tokens ps1 A = Some v" "map_of (upt_Tokens v) P = Some T"
    by auto
  from s1 have d1: "devices ps1 T = Some \<lparr>dev_DeviceID = T, dev_Platform = P, dev_MetaID = A\<rparr>"
    and a: "A \<noteq> []"
    by simp_all
  from SetUserToken_transfer [OF c1 d1 v assms(2) a assms(4)]
  obtain v' where v': "user_tokens ps2 A = Some v'" "map_of (upt_Tokens v') P = None"
    by auto
  from s1 s2 have av: "\<not> unavailable ps2 CollectionUserTokens" "\<not> unavailable ps2 CollectionDevices"
    by simp_all
  from v' a av have "GetUserTokens ps2 A = Inr v'"
    by (simp add: GetUserTokens_def)
  moreover from s2 av obtain ub where "GetUserTokens ps2 B = Inr ub" "map_of (upt_Tokens ub) P = Some T"
    by (auto simp: GetUserTokens_def)
  moreover from s2 av have "GetDeviceInfo ps2 T = Inr \<lparr>dev_DeviceID = T, dev_Platform = P, dev_MetaID = B\<rparr>"
    by (simp add: GetDeviceInfo_def)
  ultimately show ?thesis using v' by auto
qed

text \<open>
  The scenarios S1 and S2 of the specification: the token registered for \<open>u1\<close> and then
  for \<open>u2\<close>, on a fresh store.
\<close>

theorem token_transfer_witness:
  "store_consistent emptyStore \<and> ''u1'' \<noteq> ''u2'' \<and>
   snd (SetUserToken emptyStore ''u1'' ''expo'' ''ExponentPushToken[AAA]'') = None \<and>
   snd (SetUserToken (fst (SetUserToken emptyStore ''u1'' ''expo'' ''ExponentPushToken[AAA]''))
          ''u2'' ''expo'' ''ExponentPushToken[AAA]'') = None \<and>
   (\<exists>ua. GetUserTokens
            (fst (SetUserToken (fst (SetUserToken emptyStore ''u1'' ''expo''
                                       ''ExponentPushToken[AAA]''))
                    ''u2'' ''expo'' ''ExponentPushToken[AAA]'')) ''u1'' = Inr ua \<and>
          map_of (upt_Tokens ua) ''expo'' = None) \<and>
   (\<exists>ub. GetUserTokens
            (fst (SetUserToken (fst (SetUserToken emptyStore ''u1'' ''expo''
                                       ''ExponentPushToken[AAA]''))
                    ''u2'' ''expo'' ''ExponentPushToken[AAA]'')) ''u2'' = Inr ub \<and>
          map_of (upt_Tokens ub) ''expo'' = Some ''ExponentPushToken[AAA]'') \<and>
   (\<exists>d. GetDeviceInfo
           (fst (SetUserToken (fst (SetUserToken emptyStore ''u1'' ''expo''
                                      ''ExponentPushToken[AAA]''))
                   ''u2'' ''expo'' ''ExponentPushToken[AAA]'')) ''ExponentPushToken[AAA]'' = Inr d \<and>
         dev_MetaID d = ''u2'' \<and> dev_Platform d = ''expo'')"
proof -
  let ?T = "''ExponentPushToken[AAA]''"
  let ?r1 = "SetUserToken emptyStore ''u1'' ''expo'' ?T"
  let ?r2 = "SetUserToken (fst ?r1) ''u2'' ''expo'' ?T"
  have c: "store_consistent emptyStore"
    by (simp add: store_consistent_def emptyStore_def)
  have n: "''u1'' \<noteq> ''u2''" by simp
  have s1: "snd ?r1 = None" by code_simp
  have s2: "snd ?r2 = None" by code_simp
  from s1 have e1: "?r1 = (fst ?r1, None)" by (metis prod.collapse)
  from s2 have e2: "?r2 = (fst ?r2, None)" by (metis prod.collapse)
  from token_transfer [OF c n e1 e2] c n s1 s2 show ?thesis
    by blast
qed


subsection \<open>Paging\<close>

lemma int64_id: "- (2 ^ 63) \<le> x \<Longrightarrow> x < 2 ^ 63 \<Longrightarrow> int64 x = x"
  by (simp add: int64_def)

lemma quo_nonneg: "0 \<le> a \<Longrightarrow> 0 < b \<Longrightarrow> quo a b = a div b"
  by (cases "a = 0") (simp_all add: quo_def)

lemma chunks_take:
  "concat (map (\<lambda>k. take s (drop (k * s) xs)) [0..<m]) = take (m * s) xs"
proof (induction m)
  case 0
  then show ?case by simp
next
  case (Suc m)
  have "take (m * s) xs @ take s (drop (m * s) xs) = take (m * s + s) xs"
    by (simp add: take_add)
  with Suc show ?case by (simp add: add.commute)
qed

lemma page_in_range:
  assumes "\<not> unavailable ps CollectionUserTokens"
    and "1 \<le> s" and "s \<le> 100" and "1 \<le> page" and "(page - 1) * s < 2 ^ 63 - 100"
    and "int (length (List.map_filter snd scan)) < 2 ^ 62"
  shows "GetUserTokensList ps scan page s =
     Inr \<lparr>Users = take (nat s) (drop (nat ((page - 1) * s)) (List.map_filter snd scan)),
          Total = int (length (List.map_filter snd scan)), Page = page, PageSize = s,
          TotalPages = (int (length (List.map_filter snd scan)) + s - 1) div s,
          HasNext = ((page - 1) * s < int (length (List.map_filter snd scan)) \<and>
                     page < (int (length (List.map_filter snd scan)) + s - 1) div s)\<rparr>"
proof -
  let ?all = "List.map_filter snd scan"
  let ?n = "int (length ?all)"
  have p1: "int64 (page - 1) = page - 1"
  proof (rule int64_id)
    show "- (2 ^ 63) \<le> page - 1" using assms(4) by simp
    have "page - 1 \<le> (page - 1) * s" using assms(2,4) by (simp add: mult_le_cancel_left1)
    with assms(5) show "page - 1 < 2 ^ 63" by simp
  qed
  have st: "int64 ((page - 1) * s) = (page - 1) * s"
    using assms(2,4,5) by (intro int64_id) (auto intro: order_trans [of _ 0])
  have en: "int64 ((page - 1) * s + s) = (page - 1) * s + s"
    using assms(2,3,4,5) by (intro int64_id) (auto intro: order_trans [of _ 0])
  have t1: "int64 (?n + s) = ?n + s"
    using assms(2,3,6) by (intro int64_id) auto
  have t2: "int64 (?n + s - 1) = ?n + s - 1"
    using assms(2,3,6) by (intro int64_id) auto
  have q: "quo (?n + s - 1) s = (?n + s - 1) div s"
    using assms(2) by (intro quo_nonneg) auto
  have nn: "0 \<le> (page - 1) * s" using assms(2,4) by simp
  show ?thesis
  proof (cases "(page - 1) * s \<ge> ?n")
    case True
    then have "drop (nat ((page - 1) * s)) ?all = []" by simp
    with True assms(1,2,3,4) p1 st en t1 t2 q show ?thesis
      by (simp add: GetUserTokensList_def Let_def)
  next
    case False
    have tk: "take (nat (min ?n ((page - 1) * s + s) - (page - 1) * s)) (drop (nat ((page - 1) * s)) ?all)
        = take (nat s) (drop (nat ((page - 1) * s)) ?all)"
    proof (cases "(page - 1) * s + s > ?n")
      case True
      have "length (drop (nat ((page - 1) * s)) ?all) = nat (?n - (page - 1) * s)"
        using nn by (simp add: nat_diff_distrib')
      with True show ?thesis by (simp add: min_def)
    next
      case False
      then show ?thesis by (simp add: min_def)
    qed
    from False assms(1,2,3,4) p1 st en t1 t2 q nn tk show ?thesis
      by (auto simp: GetUserTokensList_def Let_def min_def)
  qed
qed

lemma clamp_page_size:
  "100 < s \<Longrightarrow> GetUserTokensList ps scan page s = GetUserTokensList ps scan page 100"
  by (simp add: GetUserTokensList_def)

lemma div_bounds:
  fixes a s :: int
  assumes "0 < s"
  shows "a div s * s \<le> a" and "a < a div s * s + s"
proof -
  have dm: "a div s * s + a mod s = a" by (rule div_mult_mod_eq)
  have "0 \<le> a mod s" "a mod s < s" using assms by simp_all
  with dm show "a div s * s \<le> a" and "a < a div s * s + s" by linarith+
qed

lemma pagination_law:
  assumes "\<not> unavailable ps CollectionUserTokens"
    and "1 \<le> s" and "s \<le> 100"
    and "int (length (List.map_filter snd scan)) < 2 ^ 62"
  shows "pagesUpTo ps scan s (nat ((int (length (List.map_filter snd scan)) + s - 1) div s))
           = List.map_filter snd scan"
proof -
  let ?all = "List.map_filter snd scan"
  let ?n = "int (length ?all)"
  let ?q = "(?n + s - 1) div s"
  let ?m = "nat ?q"
  have s0: "0 < s" using assms(2) by simp
  have q0: "0 \<le> ?q"
    using assms(2) by (simp add: pos_imp_zdiv_nonneg_iff)
  have lo: "?q * s \<le> ?n + s - 1" and hi: "?n + s - 1 < ?q * s + s"
    using div_bounds [OF s0, of "?n + s - 1"] by simp_all
  have item: "pageItems ps scan s (int k + 1) = take (nat s) (drop (k * nat s) ?all)"
    if "k < ?m" for k
  proof -
    have "int k + 1 \<le> ?q" using that by simp
    then have "(int k + 1) * s \<le> ?q * s"
      using s0 by (simp add: mult_right_mono)
    then have "int k * s + s \<le> ?q * s"
      by (simp add: algebra_simps)
    with lo assms(3,4) have "(int k + 1 - 1) * s < 2 ^ 63 - 100"
      by simp
    from page_in_range [OF assms(1,2,3) _ this assms(4)]
    have "pageItems ps scan s (int k + 1) = take (nat s) (drop (nat (int k * s)) ?all)"
      by (simp add: pageItems_def)
    moreover have "nat (int k * s) = k * nat s"
      using assms(2) by (simp add: nat_mult_distrib)
    ultimately show ?thesis by simp
  qed
  have "map (\<lambda>k. pageItems ps scan s (int k + 1)) [0..<?m]
      = map (\<lambda>k. take (nat s) (drop (k * nat s) ?all)) [0..<?m]"
    using item by (intro map_cong) auto
  then have "pagesUpTo ps scan s ?m
      = concat (map (\<lambda>k. take (nat s) (drop (k * nat s) ?all)) [0..<?m])"
    unfolding pagesUpTo_def by (rule arg_cong)
  also have "\<dots> = take (?m * nat s) ?all"
    by (rule chunks_take)
  also have "\<dots> = ?all"
  proof -
    from hi have "?n \<le> ?q * s" by simp
    moreover have "int (?m * nat s) = ?q * s"
      using q0 s0 by simp
    ultimately have "length ?all \<le> ?m * nat s"
      by linarith
    then show ?thesis by simp
  qed
  finally show ?thesis .
qed

lemma page_beyond_last:
  assumes "\<not> unavailable ps CollectionUserTokens"
    and "1 \<le> s" and "s \<le> 100"
    and "int (length (List.map_filter snd scan)) < 2 ^ 62"
    and "(int (length (List.map_filter snd scan)) + s - 1) div s < page"
    and "(page - 1) * s < 2 ^ 63 - 100"
  shows "\<exists>r. GetUserTokensList ps scan page s = Inr r \<and> Users r = [] \<and> \<not> HasNext r"
proof -
  let ?n = "int (length (List.map_filter snd scan))"
  let ?q = "(?n + s - 1) div s"
  have s0: "0 < s" using assms(2) by simp
  have "0 \<le> ?q"
    using assms(2) by (simp add: pos_imp_zdiv_nonneg_iff)
  with assms(5) have p: "1 \<le> page" by simp
  have "?n + s - 1 < ?q * s + s"
    using div_bounds [OF s0, of "?n + s - 1"] by simp
  then have "?n \<le> ?q * s" by simp
  also have "\<dots> \<le> (page - 1) * s"
    using s0 assms(5) by (simp add: mult_right_mono)
  finally have "?n \<le> (page - 1) * s" .
  with page_in_range [OF assms(1,2,3) p assms(6,4)] assms(5) show ?thesis
    by simp
qed

text \<open>
  C9. The law holds as far as the arithmetic of \<^verbatim>\<open>int\<close> goes (\<open>pagination_law\<close> for the
  pages up to the last, \<open>page_beyond_last\<close> for the pages after it), but it is stated for
  every page, and the code breaks it: for the page number \<open>2^63 - 1\<close>, which the HTTP
  handler accepts, and page size 2 the product \<^verbatim>\<open>(page - 1) * pageSize\<close> wraps around to
  \<open>-4\<close>, the test \<^verbatim>\<open>startIndex >= total\<close> fails and the slice expression panics, where the
  claim promises an empty page.
\<close>

theorem GetUserTokensList_huge_page_panics:
  "GetUserTokensList emptyStore scan 9223372036854775807 2 = Inl SliceBoundsOutOfRange"
proof -
  have "int64 (int64 (9223372036854775807 - 1) * 2) = - 4"
    by (simp add: int64_def)
  moreover have "int64 (- 4 + 2) = - 2"
    by (simp add: int64_def)
  ultimately show ?thesis
    by (simp add: GetUserTokensList_def emptyStore_def Let_def)
qed


section \<open>Properties of the retrying service\<close>

text \<open>The loop equations are unfolded by hand, one round at a time.\<close>

declare sendBatch_loop.simps [simp del]

declare SendSingleNotification_loop.simps [simp del]

lemma waitBeforeRetry_frame:
  "gateway (waitBeforeRetry s i w) = gateway w \<and> requests (waitBeforeRetry s i w) = requests w"
  by (simp add: waitBeforeRetry_def)

lemma SendPushNotifications_down:
  assumes "gatewayDown w" and "messages \<noteq> []" and "length messages \<le> 100"
  shows "SendPushNotifications w messages
           = (Inl TransportFailed, w\<lparr>requests := requests w @ [messages]\<rparr>)"
  using assms by (simp add: SendPushNotifications_def MaxMessagesPerRequest_def gatewayDown_def Let_def)

lemma gatewayDown_frame: "gateway w' = gateway w \<Longrightarrow> gatewayDown w' = gatewayDown w"
  by (simp add: gatewayDown_def)

lemma sendBatch_loop_down:
  assumes "messages \<noteq> []" and "length messages \<le> 100"
  shows "gatewayDown w \<Longrightarrow> 0 \<le> retry \<Longrightarrow> retry \<le> maxRetries s \<Longrightarrow>
     \<exists>w'. sendBatch_loop s messages retry results w
             = (failAll TransportFailed (maxRetries s) results, w') \<and>
           requests w' = requests w @ replicate (nat (maxRetries s + 1 - retry)) messages"
proof (induction "nat (maxRetries s - retry)" arbitrary: retry w)
  case 0
  then have r: "retry = maxRetries s" by simp
  with 0 assms show ?case
    by (subst sendBatch_loop.simps) (simp add: SendPushNotifications_down shouldRetry_def)
next
  case (Suc k)
  then have lt: "retry < maxRetries s" by simp
  let ?w1 = "waitBeforeRetry s retry (w\<lparr>requests := requests w @ [messages]\<rparr>)"
  have d: "gatewayDown ?w1"
    using Suc.prems(1) by (simp add: gatewayDown_def waitBeforeRetry_frame)
  from Suc.hyps(2) have k: "k = nat (maxRetries s - (retry + 1))" by simp
  from Suc.hyps(1) [OF k d] Suc.prems lt
  obtain w' where w': "sendBatch_loop s messages (retry + 1) results ?w1
             = (failAll TransportFailed (maxRetries s) results, w')"
    "requests w' = requests ?w1 @ replicate (nat (maxRetries s + 1 - (retry + 1))) messages"
    by auto
  have "nat (maxRetries s + 1 - retry) = Suc (nat (maxRetries s + 1 - (retry + 1)))"
    using lt Suc.prems by simp
  then have "requests w' = requests w @ replicate (nat (maxRetries s + 1 - retry)) messages"
    using w'(2) by (simp add: waitBeforeRetry_frame)
  moreover have "sendBatch_loop s messages retry results w
       = sendBatch_loop s messages (retry + 1) results ?w1"
    using lt Suc.prems assms
    by (subst sendBatch_loop.simps) (simp add: SendPushNotifications_down shouldRetry_def)
  ultimately show ?case using w'(1) by simp
qed

text \<open>
  C7. When the transport fails on every request, a batch send (of 1 to 100 tokens, with
  \<open>max_retries \<ge> 0\<close>) performs exactly \<open>max_retries + 1\<close> network attempts, each carrying the
  whole batch, and then returns with every message of the batch marked failed.
\<close>

theorem retry_bound:
  assumes "0 \<le> maxRetries s" and "tokens \<noteq> []" and "length tokens \<le> 100"
    and "gatewayDown w"
  shows "\<exists>results w'. sendBatch s w tokens title body data = (results, w') \<and>
           length (requests w') = length (requests w) + nat (maxRetries s + 1) \<and>
           (\<forall>req \<in> set (drop (length (requests w)) (requests w')). length req = length tokens) \<and>
           length results = length tokens \<and>
           (\<forall>r \<in> set results. \<not> snr_Success r \<and> snr_Error r = Some TransportFailed)"
proof -
  let ?messages = "map (\<lambda>token. \<lparr>pm_To = [token], pm_Title = title, pm_Body = body, pm_Data = data,
                      pm_Sound = [], pm_TTL = 0, pm_Priority = [], pm_Badge = None,
                      pm_RichContent = None\<rparr>) tokens"
  let ?results = "map (\<lambda>token. \<lparr>snr_Success = False, snr_ReceiptID = [], snr_Error = None,
                      snr_Token = token, snr_Retry = 0\<rparr>) tokens"
  have m: "?messages \<noteq> []" "length ?messages \<le> 100" using assms(2,3) by simp_all
  from sendBatch_loop_down [where retry = 0 and results = "?results" and s = s, OF m assms(4) _ assms(1)]
  obtain w' where w': "sendBatch_loop s ?messages 0 ?results w
             = (failAll TransportFailed (maxRetries s) ?results, w')"
    "requests w' = requests w @ replicate (nat (maxRetries s + 1 - 0)) ?messages"
    by auto
  have "sendBatch s w tokens title body data = (failAll TransportFailed (maxRetries s) ?results, w')"
    using w'(1) by (simp add: sendBatch_def)
  moreover have "\<forall>r \<in> set (failAll TransportFailed (maxRetries s) ?results).
      \<not> snr_Success r \<and> snr_Error r = Some TransportFailed"
    by (auto simp: failAll_def)
  moreover have "length (failAll TransportFailed (maxRetries s) ?results) = length tokens"
    by (simp add: failAll_def)
  ultimately show ?thesis using w'(2) by auto
qed

theorem retry_bound_witness:
  "0 \<le> maxRetries (mgr_service NewManager) \<and>
   gatewayDown (newWorld deadGateway) \<and>
   length (requests (snd (sendBatch (mgr_service NewManager) (newWorld deadGateway)
      [''ExponentPushToken[u1-device]'', ''ExponentPushToken[u2-device]''] ''t'' ''b'' []))) = 4 \<and>
   map snr_Error (fst (sendBatch (mgr_service NewManager) (newWorld deadGateway)
      [''ExponentPushToken[u1-device]'', ''ExponentPushToken[u2-device]''] ''t'' ''b'' []))
     = [Some TransportFailed, Some TransportFailed]"
proof -
  let ?tokens = "[''ExponentPushToken[u1-device]'', ''ExponentPushToken[u2-device]'']"
  let ?run = "sendBatch (mgr_service NewManager) (newWorld deadGateway) ?tokens ''t'' ''b'' []"
  have h1: "0 \<le> maxRetries (mgr_service NewManager)" by (simp add: NewManager_def)
  have h2: "?tokens \<noteq> []" by simp
  have h3: "length ?tokens \<le> 100" by simp
  have h4: "gatewayDown (newWorld deadGateway)"
    by (simp add: gatewayDown_def newWorld_def deadGateway_def)
  have m: "maxRetries (mgr_service NewManager) = 3" by (simp add: NewManager_def)
  have r0: "requests (newWorld deadGateway) = []" by (simp add: newWorld_def)
  from retry_bound [OF h1 h2 h3 h4, of "''t''" "''b''" "[]"]
  have "length (requests (snd ?run)) = 4"
    by (auto simp: m r0)
  moreover have "map snr_Error (fst ?run) = [Some TransportFailed, Some TransportFailed]"
    by code_simp
  ultimately show ?thesis using h1 h4 by blast
qed


subsection \<open>The float64 computations in range\<close>

declare bitLen.simps [simp del]

lemma bitLen_le: "0 \<le> m \<Longrightarrow> m < 2 ^ n \<Longrightarrow> bitLen m \<le> n"
proof (induction n arbitrary: m)
  case 0
  then have "m = 0" by simp
  then show ?case by (simp add: bitLen.simps)
next
  case (Suc n)
  show ?case
  proof (cases "m \<le> 0")
    case True
    then show ?thesis by (simp add: bitLen.simps)
  next
    case False
    from Suc.prems have "0 \<le> m div 2" "m div 2 < 2 ^ n" by auto
    then have "bitLen (m div 2) \<le> n" by (rule Suc.IH)
    with False show ?thesis by (subst bitLen.simps) simp
  qed
qed

lemma bitLen_zero: "bitLen 0 = 0"
  by (simp add: bitLen.simps)

lemma div_lower: "(0::int) < c \<Longrightarrow> a * c \<le> M \<Longrightarrow> a \<le> M div c"
  using zdiv_mono1 [of "a * c" M c] by simp

lemma div_upper:
  assumes "(0::int) < c" and "M < X * c"
  shows "M div c < X"
proof -
  have "M div c * c + M mod c = M" by simp
  moreover have "0 \<le> M mod c" using assms(1) by simp
  ultimately have "M div c * c \<le> M" by linarith
  with assms(2) have "M div c * c < X * c" by simp
  with assms(1) show ?thesis by (simp add: mult_less_cancel_right)
qed

lemma roundNearestEven_bounds:
  "m div 2 ^ s \<le> roundNearestEven m s \<and> roundNearestEven m s \<le> m div 2 ^ s + 1"
  by (simp add: roundNearestEven_def Let_def)

lemma roundNearestEven_0: "roundNearestEven m 0 = m"
  by (simp add: roundNearestEven_def)

text \<open>A value of at most 53 binary digits within the exponent range is not rounded.\<close>

lemma float64_round_exact:
  assumes "0 \<le> m" and "bitLen m \<le> 53" and "- 1074 \<le> e" and "int (bitLen m) + e \<le> 1024"
  shows "float64_round sign m e = F64 sign m e"
proof -
  have s: "max (bitLen m - 53) (nat (- 1074 - e)) = 0"
    using assms(2,3) by simp
  have o: "\<not> 1024 < int (bitLen m) + e"
    using assms(4) by simp
  show ?thesis
    unfolding float64_round_def Let_def s roundNearestEven_0 using o by simp
qed

lemma float64_of_int64_exact:
  assumes "0 \<le> x" and "x < 2 ^ 53"
  shows "float64_of_int64 x = F64 False x 0"
proof -
  from assms have "bitLen x \<le> 53" by (rule bitLen_le)
  with assms show ?thesis
    by (simp add: float64_of_int64_def float64_round_exact)
qed

lemma pow_bitLen:
  assumes "0 \<le> b" and "b * 2 ^ n < (2::int) ^ 52" and "n \<le> 1023"
  shows "bitLen b \<le> 53 \<and> int (bitLen b) + int n \<le> 1024"
proof (cases "b = 0")
  case True
  with assms(3) show ?thesis by (simp add: bitLen_zero)
next
  case False
  with assms(1) have b: "1 \<le> b" by simp
  have "(2::int) ^ n \<le> b * 2 ^ n" using b by simp
  with assms(2) have "(2::int) ^ n < 2 ^ 52" by linarith
  then have n: "n < 52" using power_less_imp_less_exp [of "2::int" n 52] by simp
  have "b * 2 ^ n < (2::int) ^ (52 - n) * 2 ^ n"
    using assms(2) n by (simp add: power_add [symmetric])
  then have "b < 2 ^ (52 - n)" by simp
  with assms(1) have "bitLen b \<le> 52 - n" by (rule bitLen_le)
  with n show ?thesis by arith
qed

text \<open>
  The scaling of the base delay by \<open>2^n\<close> is exact as long as the result stays below
  \<open>2^52\<close> ns.
\<close>

lemma scaled_delay:
  assumes "0 \<le> b" and "b * 2 ^ n < (2::int) ^ 52" and "n \<le> 1023"
  shows "int64_of_float64 (float64_mul (float64_of_int64 b) (math_Pow2 (int n))) = b * 2 ^ n"
proof -
  have "(1::int) \<le> 2 ^ n" by simp
  then have "b * 1 \<le> b * 2 ^ n" using assms(1) by (rule mult_left_mono)
  with assms(2) have b53: "b < 2 ^ 53" by simp
  from pow_bitLen [OF assms] have l: "bitLen b \<le> 53" "int (bitLen b) + int n \<le> 1024"
    by simp_all
  have p: "math_Pow2 (int n) = F64 False 1 (int n)"
    using assms(3) by (simp add: math_Pow2_def)
  have "float64_mul (float64_of_int64 b) (math_Pow2 (int n)) = float64_round False b (int n)"
    using assms(1) b53 by (simp add: float64_of_int64_exact p)
  also have "\<dots> = F64 False b (int n)"
    using assms(1) l by (simp add: float64_round_exact)
  finally have "int64_of_float64 (float64_mul (float64_of_int64 b) (math_Pow2 (int n)))
      = int64_of_float64 (F64 False b (int n))"
    by simp
  moreover have "0 \<le> b * 2 ^ n" using assms(1) by simp
  ultimately show ?thesis
    using assms(2) by (simp add: int64_of_float64_def Let_def)
qed

text \<open>
  The jitter of a delay \<open>d\<close> below \<open>2^52\<close> ns is \<open>d div 10\<close>. The float64 nearest to 0.1 is
  \<open>c \<sqdot> 2^-55\<close> with \<open>10 \<sqdot> c = 2^55 + 2\<close>, so the exact product lies between \<open>d / 10\<close> and
  \<open>d / 10 + 2^-3\<close>; rounding it to 53 binary digits moves it by less than \<open>2^-4\<close>, which does
  not carry it across an integer.
\<close>

lemma tenth_jitter:
  assumes "0 \<le> d" and "d < (2::int) ^ 52"
  shows "int64_of_float64 (float64_mul (float64_of_int64 d) float64_tenth) = d div 10"
proof -
  define k where "k = d div 10"
  define r where "r = d mod 10"
  define M where "M = d * 3602879701896397"
  define s where "s = bitLen M - 53"
  define m' where "m' = roundNearestEven M s"
  have d: "d = 10 * k + r" and r: "0 \<le> r" "r \<le> 9" and k: "0 \<le> k" "10 * k \<le> d"
    using assms(1) by (simp_all add: k_def r_def)
  have M0: "0 \<le> M" using assms(1) by (simp add: M_def)
  have "M < 2 ^ 52 * 3602879701896397" using assms(2) by (simp add: M_def)
  then have "M < 2 ^ 104" by simp
  with M0 have "bitLen M \<le> 104" by (rule bitLen_le)
  then have s: "s \<le> 51" by (simp add: s_def)
  have lo: "k * 2 ^ 55 \<le> M" using r k by (simp add: M_def d)
  have hi: "M + 2 ^ 51 < (k + 1) * 2 ^ 55" using r k assms(2) by (simp add: M_def d)
  have p55: "(2::int) ^ 55 = 2 ^ (55 - s) * 2 ^ s"
    using s by (simp add: power_add [symmetric])
  have "(2::int) ^ s \<le> 2 ^ 51" using s by (intro power_increasing) simp_all
  with hi have hi': "M < ((k + 1) * 2 ^ (55 - s) - 1) * 2 ^ s"
    unfolding p55 by (simp add: algebra_simps)
  have lo': "(k * 2 ^ (55 - s)) * 2 ^ s \<le> M"
    using lo unfolding p55 by (simp add: algebra_simps)
  have q1: "k * 2 ^ (55 - s) \<le> M div 2 ^ s"
    using lo' by (intro div_lower) simp_all
  have q2: "M div 2 ^ s < (k + 1) * 2 ^ (55 - s) - 1"
    using hi' by (intro div_upper) simp_all
  from roundNearestEven_bounds [of M s] q1 q2
  have m1: "k * 2 ^ (55 - s) \<le> m'" and m2: "m' < (k + 1) * 2 ^ (55 - s)"
    by (simp_all add: m'_def)
  have res: "m' div 2 ^ (55 - s) = k"
    by (rule int_div_pos_eq [where r = "m' - k * 2 ^ (55 - s)"])
       (use m1 m2 in \<open>simp_all add: algebra_simps\<close>)
  have m'0: "0 \<le> m'" using m1 k by (simp add: order_trans [OF _ m1])
  have "m' < (k + 1) * 2 ^ 55"
  proof -
    have "(2::int) ^ (55 - s) \<le> 2 ^ 55" by (intro power_increasing) simp_all
    with k have "(k + 1) * 2 ^ (55 - s) \<le> (k + 1) * 2 ^ 55" by (intro mult_left_mono) simp_all
    with m2 show ?thesis by linarith
  qed
  moreover have "(k + 1) * 2 ^ 55 \<le> (2::int) ^ 110" using k assms(2) by simp
  ultimately have "m' < 2 ^ 110" by linarith
  with m'0 have bl: "bitLen m' \<le> 110" by (rule bitLen_le)
  have x: "float64_of_int64 d = F64 False d 0"
    using assms by (intro float64_of_int64_exact) simp_all
  have smax: "max (bitLen M - 53) (nat (- 1074 - (0 + - 55))) = s"
    by (simp add: s_def)
  have "float64_mul (float64_of_int64 d) float64_tenth = F64 False m' (- 55 + int s)"
    using bl s unfolding x float64_tenth_def float64_mul.simps float64_round_def Let_def
      M_def [symmetric] smax m'_def [symmetric]
    by simp
  then have "int64_of_float64 (float64_mul (float64_of_int64 d) float64_tenth)
      = (let v = m' div 2 ^ nat (55 - int s)
         in if - (2 ^ 63) \<le> v \<and> v < 2 ^ 63 then v else - (2 ^ 63))"
    using s by (simp add: int64_of_float64_def Let_def)
  also have "nat (55 - int s) = 55 - s" by simp
  finally show ?thesis
    unfolding res Let_def k_def [symmetric] using k assms(2) by simp
qed

lemma backoffDelay_in_range:
  assumes "0 \<le> baseDelay s" and "baseDelay s * 2 ^ n < 2 ^ 52" and "n \<le> 1023"
  shows "backoffDelay s (int n + 1) = baseDelay s * 2 ^ n + baseDelay s * 2 ^ n div 10"
proof -
  have d0: "0 \<le> baseDelay s * 2 ^ n" using assms(1) by simp
  have i: "int64 (int n + 1 - 1) = int n"
    using assms(3) by (simp add: int64_id)
  have "baseDelay s * 2 ^ n div 10 \<le> baseDelay s * 2 ^ n"
    using d0 by (simp add: div_le_dividend)
  then show ?thesis
    unfolding backoffDelay_def i scaled_delay [OF assms] Let_def tenth_jitter [OF d0 assms(2)]
    using d0 assms(2) by (intro int64_id) simp_all
qed

subsection \<open>The backoff schedule\<close>

lemma waitBeforeRetry_sleeps:
  "0 \<le> retry \<Longrightarrow> sleeps (waitBeforeRetry s retry w)
     = sleeps w @ map (\<lambda>i. backoffDelay s (int i)) (filter (\<lambda>i. i \<noteq> 0) [nat retry])"
  by (simp add: waitBeforeRetry_def)

lemma SendPushNotification_reply:
  "SendPushNotification w message =
     ((case gateway w (length (requests w)) [message] of
         NoReply \<Rightarrow> Inl TransportFailed
       | Reply status body \<Rightarrow>
           (if status \<noteq> 200 then Inl (BadStatus status)
            else case body of None \<Rightarrow> Inl BadResponse | Some r \<Rightarrow> Inr r)),
      w\<lparr>requests := requests w @ [[message]]\<rparr>)"
  by (simp add: SendPushNotification_def SendPushNotifications_def MaxMessagesPerRequest_def Let_def
      split: http_reply.splits option.splits)

lemma SendSingleNotification_loop_flaky:
  assumes "resp_Errors response = []" and "resp_Data response = ticket # tickets"
    and "tk_Status ticket = ''ok''"
  shows "(\<forall>i < k. gateway w (length (requests w) + i) [message] = NoReply) \<Longrightarrow>
     gateway w (length (requests w) + k) [message] = Reply 200 (Some response) \<Longrightarrow>
     0 \<le> retry \<Longrightarrow> retry + int k \<le> maxRetries s \<Longrightarrow>
     \<exists>result' w'. SendSingleNotification_loop s message retry result w = (result', w') \<and>
        snr_Success result' \<and> snr_Retry result' = retry + int k \<and>
        snr_ReceiptID result' = tk_ID ticket \<and>
        requests w' = requests w @ replicate (Suc k) [message] \<and>
        sleeps w' = sleeps w @ map (\<lambda>i. backoffDelay s (int i))
                      (filter (\<lambda>i. i \<noteq> 0) [nat retry ..< nat retry + k])"
proof (induction k arbitrary: retry result w)
  case 0
  then show ?case using assms
    by (subst SendSingleNotification_loop.simps) (simp add: SendPushNotification_reply)
next
  case (Suc k)
  let ?w1 = "w\<lparr>requests := requests w @ [[message]]\<rparr>"
  let ?w2 = "waitBeforeRetry s retry ?w1"
  have g2: "gateway ?w2 = gateway w" and r2: "requests ?w2 = requests w @ [[message]]"
    by (simp_all add: waitBeforeRetry_frame)
  have s2: "sleeps ?w2 = sleeps w @ map (\<lambda>i. backoffDelay s (int i))
                           (filter (\<lambda>i. i \<noteq> 0) [nat retry])"
    using Suc.prems(3) waitBeforeRetry_sleeps [of retry s ?w1] by simp
  have a: "\<forall>i < k. gateway ?w2 (length (requests ?w2) + i) [message] = NoReply"
    using Suc.prems(1) g2 r2 by (auto simp: less_Suc_eq_0_disj)
  have b: "gateway ?w2 (length (requests ?w2) + k) [message] = Reply 200 (Some response)"
    using Suc.prems(2) g2 r2 by simp
  have c: "0 \<le> retry + 1" "retry + 1 + int k \<le> maxRetries s"
    using Suc.prems(3,4) by simp_all
  from Suc.IH [OF a b c, of "result\<lparr>snr_Retry := retry\<rparr>"]
  obtain result' w' where
    l: "SendSingleNotification_loop s message (retry + 1) (result\<lparr>snr_Retry := retry\<rparr>) ?w2
          = (result', w')"
    and p: "snr_Success result'" "snr_Retry result' = retry + 1 + int k"
      "snr_ReceiptID result' = tk_ID ticket"
      "requests w' = requests ?w2 @ replicate (Suc k) [message]"
      "sleeps w' = sleeps ?w2 @ map (\<lambda>i. backoffDelay s (int i))
                      (filter (\<lambda>i. i \<noteq> 0) [nat (retry + 1) ..< nat (retry + 1) + k])"
    by blast
  have first: "gateway w (length (requests w)) [message] = NoReply"
    using Suc.prems(1) by (metis add.right_neutral zero_less_Suc)
  have "SendSingleNotification_loop s message retry result w
          = SendSingleNotification_loop s message (retry + 1) (result\<lparr>snr_Retry := retry\<rparr>) ?w2"
    using first Suc.prems(4)
    by (subst SendSingleNotification_loop.simps)
       (simp add: SendPushNotification_reply shouldRetry_def)
  with l have eq: "SendSingleNotification_loop s message retry result w = (result', w')"
    by simp
  have rt: "snr_Retry result' = retry + int (Suc k)"
    using p(2) by simp
  have rq: "requests w' = requests w @ replicate (Suc (Suc k)) [message]"
    using p(4) r2 by (simp add: replicate_app_Cons_same)
  have up: "[nat retry ..< nat retry + Suc k]
      = nat retry # [nat (retry + 1) ..< nat (retry + 1) + k]"
    using Suc.prems(3) by (simp add: upt_conv_Cons nat_add_distrib)
  have sl: "sleeps w' = sleeps w @ map (\<lambda>i. backoffDelay s (int i))
                      (filter (\<lambda>i. i \<noteq> 0) [nat retry ..< nat retry + Suc k])"
    unfolding up p(5) s2 by simp
  from eq p(1) rt p(3) rq sl show ?case
    by blast
qed

text \<open>
  When the transport fails \<open>k\<close> times and then accepts (\<open>k \<le> max_retries\<close>), a
  single-message send makes \<open>k + 1\<close> attempts and succeeds; no sleep precedes the first
  retry, and the retries after it are preceded by the sleeps that \<^verbatim>\<open>waitBeforeRetry\<close>
  computes for the counts \<open>1, \<dots>, k - 1\<close>. This holds for every base delay.
\<close>

lemma SendSingleNotification_flaky:
  assumes "int k \<le> maxRetries s" and "failsThenAccepts w k receipt"
  shows "\<exists>result w'. SendSingleNotification s w token title body data = (result, w') \<and>
           snr_Success result \<and> snr_Retry result = int k \<and>
           length (requests w') = length (requests w) + k + 1 \<and>
           sleeps w' = sleeps w @ map (\<lambda>i. backoffDelay s (int i)) [1..<k]"
proof -
  let ?message = "\<lparr>pm_To = [token], pm_Title = title, pm_Body = body, pm_Data = data, pm_Sound = [],
        pm_TTL = 0, pm_Priority = [], pm_Badge = None, pm_RichContent = None\<rparr>"
  let ?ticket = "\<lparr>tk_Status = ''ok'', tk_ID = receipt, tk_Message = []\<rparr>"
  let ?response = "\<lparr>resp_Data = [?ticket], resp_Errors = []\<rparr>"
  have f: "filter (\<lambda>i. i \<noteq> 0) [0 ..< k] = [1..<k]"
    by (cases k) (simp_all add: upt_conv_Cons filter_id_conv del: upt_Suc)
  have a: "\<forall>i < k. gateway w (length (requests w) + i) [?message] = NoReply"
    using assms(2) by (simp add: failsThenAccepts_def)
  have b: "gateway w (length (requests w) + k) [?message] = Reply 200 (Some ?response)"
    using assms(2) by (simp add: failsThenAccepts_def)
  have c: "(0::int) \<le> 0" "0 + int k \<le> maxRetries s"
    using assms(1) by simp_all
  have e: "resp_Errors ?response = []" "resp_Data ?response = ?ticket # []"
    "tk_Status ?ticket = ''ok''"
    by simp_all
  let ?r0 = "\<lparr>snr_Success = False, snr_ReceiptID = [], snr_Error = None, snr_Token = token,
        snr_Retry = 0\<rparr>"
  from SendSingleNotification_loop_flaky [where result = ?r0, OF e a b c]
  obtain result' w' where
    "SendSingleNotification_loop s ?message 0 ?r0 w = (result', w')"
    and p: "snr_Success result'" "snr_Retry result' = 0 + int k"
      "requests w' = requests w @ replicate (Suc k) [?message]"
      "sleeps w' = sleeps w @ map (\<lambda>i. backoffDelay s (int i))
                     (filter (\<lambda>i. i \<noteq> 0) [nat 0 ..< nat 0 + k])"
    by blast
  then have "SendSingleNotification s w token title body data = (result', w')"
    by (simp add: SendSingleNotification_def)
  moreover have "length (requests w') = length (requests w) + k + 1"
    using p(3) by simp
  moreover have "sleeps w' = sleeps w @ map (\<lambda>i. backoffDelay s (int i)) [1..<k]"
    using p(4) f by simp
  ultimately show ?thesis using p(1,2) by auto
qed

lemma tenth_bounds:
  "q * 10 + r = D \<Longrightarrow> 0 \<le> r \<Longrightarrow> 0 \<le> q \<Longrightarrow> D \<le> D + q \<and> 10 * (D + q) \<le> 11 * (D::int)"
  by auto

lemma tenth_within_jitter:
  assumes "(0::int) \<le> D"
  shows "D \<le> D + D div 10 \<and> 10 * (D + D div 10) \<le> 11 * D"
proof (rule tenth_bounds)
  show "D div 10 * 10 + D mod 10 = D" by simp
  show "0 \<le> D mod 10" by simp
  show "0 \<le> D div 10" using assms by (simp add: pos_imp_zdiv_nonneg_iff)
qed

text \<open>
  In range, the sleep for the count \<open>i \<ge> 1\<close> is the delay \<open>base_delay \<sqdot> 2^(i-1)\<close> plus its
  tenth, cut to whole nanoseconds: the delay \<open>delay_i\<close> of the specification, with a
  jitter between 0 and 0.1.
\<close>

lemma backoffDelay_spec:
  assumes "0 < baseDelay s" and "baseDelay s * 2 ^ (k - 2) < 2 ^ 52" and "1 \<le> i" and "i < k"
  shows "backoffDelay s (int i) = baseDelay s * 2 ^ (i - 1) + baseDelay s * 2 ^ (i - 1) div 10 \<and>
         spec_delay (baseDelay s) i (backoffDelay s (int i))"
proof -
  define D where "D = baseDelay s * 2 ^ (i - 1)"
  have b0: "0 \<le> baseDelay s" using assms(1) by simp
  have le: "i - 1 \<le> k - 2" using assms(3,4) by simp
  have "(2::int) ^ (i - 1) \<le> 2 ^ (k - 2)"
    using le by (intro power_increasing) simp_all
  then have "baseDelay s * 2 ^ (i - 1) \<le> baseDelay s * 2 ^ (k - 2)"
    using b0 by (rule mult_left_mono)
  then have r: "baseDelay s * 2 ^ (i - 1) < 2 ^ 52"
    using assms(2) by (rule le_less_trans)
  have "(1::int) \<le> baseDelay s" using assms(1) by simp
  then have "1 * (2::int) ^ (i - 1) \<le> baseDelay s * 2 ^ (i - 1)"
    by (rule mult_right_mono) simp
  then have "(2::int) ^ (i - 1) \<le> baseDelay s * 2 ^ (i - 1)" by simp
  then have "(2::int) ^ (i - 1) < 2 ^ 52" using r by (rule le_less_trans)
  then have "i - 1 < 52" by (rule power_less_imp_less_exp [rotated]) simp
  then have n: "i - 1 \<le> 1023" by simp
  have ii: "int (i - 1) + 1 = int i" using assms(3) by simp
  from backoffDelay_in_range [OF b0 r n]
  have eq: "backoffDelay s (int i) = D + D div 10"
    unfolding ii D_def .
  have "0 \<le> D" using b0 by (simp add: D_def)
  then have "D \<le> D + D div 10 \<and> 10 * (D + D div 10) \<le> 11 * D"
    by (rule tenth_within_jitter)
  then have "spec_delay (baseDelay s) i (D + D div 10)"
    unfolding spec_delay_def D_def .
  with eq show ?thesis unfolding D_def by simp
qed

text \<open>
  C8 (as amended). When the transport fails \<open>k\<close> times and then accepts
  (\<open>k \<le> max_retries\<close>), a single-message send makes exactly \<open>k + 1\<close> network attempts and
  succeeds. The first retry follows at once. For a positive base delay and delays below
  \<open>2^52\<close> ns, the \<open>n\<close>-th retry, for \<open>n = 2, \<dots>, k\<close>, is preceded by one sleep of
  \<open>base_delay \<sqdot> 2^(n-2) \<sqdot> (1 + jitter)\<close> with a jitter between 0 and 0.1 (the tenth of the
  delay, cut to whole nanoseconds). With two failures before the success this is 3
  attempts and a single sleep of \<open>base_delay \<sqdot> (1 + jitter)\<close>.
\<close>

theorem backoff_schedule:
  assumes "int k \<le> maxRetries s" and "failsThenAccepts w k receipt"
    and "0 < baseDelay s" and "baseDelay s * 2 ^ (k - 2) < 2 ^ 52"
  shows "\<exists>result w'. SendSingleNotification s w token title body data = (result, w') \<and>
           snr_Success result \<and> snr_Retry result = int k \<and>
           length (requests w') = length (requests w) + k + 1 \<and>
           sleeps w' = sleeps w @ map (\<lambda>i. backoffDelay s (int i)) [1..<k] \<and>
           (\<forall>i \<in> {1..<k}.
              backoffDelay s (int i)
                = baseDelay s * 2 ^ (i - 1) + baseDelay s * 2 ^ (i - 1) div 10 \<and>
              spec_delay (baseDelay s) i (backoffDelay s (int i)))"
proof -
  from SendSingleNotification_flaky [OF assms(1,2), of token title body data]
  obtain result w' where run: "SendSingleNotification s w token title body data = (result, w')"
    and p: "snr_Success result" "snr_Retry result = int k"
      "length (requests w') = length (requests w) + k + 1"
      "sleeps w' = sleeps w @ map (\<lambda>i. backoffDelay s (int i)) [1..<k]"
    by blast
  have "\<forall>i \<in> {1..<k}.
          backoffDelay s (int i)
            = baseDelay s * 2 ^ (i - 1) + baseDelay s * 2 ^ (i - 1) div 10 \<and>
          spec_delay (baseDelay s) i (backoffDelay s (int i))"
  proof (intro ballI)
    fix i
    assume "i \<in> {1..<k}"
    then have "1 \<le> i" "i < k" by simp_all
    then show "backoffDelay s (int i)
            = baseDelay s * 2 ^ (i - 1) + baseDelay s * 2 ^ (i - 1) div 10 \<and>
          spec_delay (baseDelay s) i (backoffDelay s (int i))"
      by (rule backoffDelay_spec [OF assms(3,4)])
  qed
  with run p show ?thesis by blast
qed

text \<open>
  The scenario S6 of the specification with the default service (base delay 1 s, three
  retries): two failures, then 3 attempts in all and a single sleep of 1.1 s.
\<close>

theorem backoff_schedule_witness:
  "int 2 \<le> maxRetries (mgr_service NewManager) \<and>
   failsThenAccepts (newWorld (flakyGateway 2)) 2 ''receipt'' \<and>
   0 < baseDelay (mgr_service NewManager) \<and>
   baseDelay (mgr_service NewManager) * 2 ^ (2 - 2) < 2 ^ 52 \<and>
   snr_Success (fst (SendSingleNotification (mgr_service NewManager) (newWorld (flakyGateway 2))
      ''ExponentPushToken[u1-device]'' ''t'' ''b'' [])) \<and>
   length (requests (snd (SendSingleNotification (mgr_service NewManager)
      (newWorld (flakyGateway 2)) ''ExponentPushToken[u1-device]'' ''t'' ''b'' []))) = 3 \<and>
   sleeps (snd (SendSingleNotification (mgr_service NewManager) (newWorld (flakyGateway 2))
      ''ExponentPushToken[u1-device]'' ''t'' ''b'' [])) = [1100000000] \<and>
   spec_delay (baseDelay (mgr_service NewManager)) 1 1100000000"
proof -
  let ?s = "mgr_service NewManager"
  let ?w = "newWorld (flakyGateway 2)"
  let ?run = "SendSingleNotification ?s ?w ''ExponentPushToken[u1-device]'' ''t'' ''b'' []"
  have h1: "int 2 \<le> maxRetries ?s" by (simp add: NewManager_def)
  have h2: "failsThenAccepts ?w 2 ''receipt''"
    by (simp add: failsThenAccepts_def newWorld_def flakyGateway_def okGateway_def)
  have h3: "0 < baseDelay ?s" by (simp add: NewManager_def)
  have h4: "baseDelay ?s * 2 ^ (2 - 2) < 2 ^ 52" by (simp add: NewManager_def)
  have b: "baseDelay ?s = 1000000000" by (simp add: NewManager_def)
  have r0: "requests ?w = []" "sleeps ?w = []" by (simp_all add: newWorld_def)
  from backoff_schedule [OF h1 h2 h3 h4, of "''ExponentPushToken[u1-device]''" "''t''" "''b''" "[]"]
  obtain result w' where run: "?run = (result, w')"
    and p: "snr_Success result" "length (requests w') = length (requests ?w) + 2 + 1"
      "sleeps w' = sleeps ?w @ map (\<lambda>i. backoffDelay ?s (int i)) [1..<2]"
    and q: "\<forall>i \<in> {1..<2}.
              backoffDelay ?s (int i)
                = baseDelay ?s * 2 ^ (i - 1) + baseDelay ?s * 2 ^ (i - 1) div 10 \<and>
              spec_delay (baseDelay ?s) i (backoffDelay ?s (int i))"
    by blast
  have one: "(1::nat) \<in> {1..<2}" by simp
  from q one have "backoffDelay ?s (int 1)
          = baseDelay ?s * 2 ^ (1 - 1) + baseDelay ?s * 2 ^ (1 - 1) div 10 \<and>
        spec_delay (baseDelay ?s) 1 (backoffDelay ?s (int 1))"
    by (rule bspec)
  then have d0: "backoffDelay ?s (int 1)
          = baseDelay ?s * 2 ^ (1 - 1) + baseDelay ?s * 2 ^ (1 - 1) div 10"
    and sp: "spec_delay (baseDelay ?s) 1 (backoffDelay ?s (int 1))"
    by (rule conjunct1, rule conjunct2)
  have d: "backoffDelay ?s (int 1) = 1100000000"
    unfolding d0 b by simp
  have u: "[1..<2] = [1::nat]" by (simp add: upt_conv_Cons)
  from p(3) have "sleeps w' = [1100000000]"
    unfolding u r0 using d by simp
  with run p(1,2) r0 have "snr_Success (fst ?run) \<and> length (requests (snd ?run)) = 3 \<and>
        sleeps (snd ?run) = [1100000000]"
    by simp
  moreover from sp d have "spec_delay (baseDelay ?s) 1 1100000000" by simp
  ultimately show ?thesis using h1 h2 h3 h4 by blast
qed

text \<open>
  C8 as stated fails. After one failure the retry goes out with no sleep at all, and
  after two failures the total wait is 1.1 s for a base delay of 1 s, below the
  \<open>base_delay + 2 \<sqdot> base_delay\<close> of the claimed schedule. And for a base delay of \<open>2^33\<close>
  seconds the sum of the delay and its jitter wraps around: the one sleep after two
  failures is negative, not \<open>base_delay \<sqdot> (1 + jitter)\<close>.
\<close>

theorem backoff_schedule_counterexample:
  "length (requests (snd (SendSingleNotification (mgr_service NewManager)
      (newWorld (flakyGateway 1)) ''ExponentPushToken[u1-device]'' ''t'' ''b'' []))) = 2 \<and>
   sleeps (snd (SendSingleNotification (mgr_service NewManager) (newWorld (flakyGateway 1))
      ''ExponentPushToken[u1-device]'' ''t'' ''b'' [])) = [] \<and>
   length (requests (snd (SendSingleNotification (mgr_service NewManager)
      (newWorld (flakyGateway 2)) ''ExponentPushToken[u1-device]'' ''t'' ''b'' []))) = 3 \<and>
   sum_list (sleeps (snd (SendSingleNotification (mgr_service NewManager)
      (newWorld (flakyGateway 2)) ''ExponentPushToken[u1-device]'' ''t'' ''b'' [])))
     < spec_total_wait_floor (baseDelay (mgr_service NewManager)) 2 \<and>
   sleeps (snd (SendSingleNotification \<lparr>maxRetries = 3, baseDelay = 8589934592000000000\<rparr>
      (newWorld (flakyGateway 2)) ''ExponentPushToken[u1-device]'' ''t'' ''b'' []))
     = [- 8997816022509551616]"
  by code_simp

section \<open>Properties of the dispatcher\<close>














lemma providers_expo:
  "providers (expoPushService m) platform
     = (if platform = ProviderTypeExpo then Some (ExpoProvider m) else None)"
  by (simp add: expoPushService_def NewPushService_def)


lemma sendToPlatforms_Cons_other:
  "platform \<noteq> ProviderTypeExpo \<Longrightarrow>
   sendToPlatforms (expoPushService m) n metaId ((platform, token) # toks) acc
     = sendToPlatforms (expoPushService m) n metaId toks acc"
  by (simp add: providers_expo)



lemma valid_attempts_count:
  "length (filter (\<lambda>(metaId, platform, token). ValidateToken token)
       (map (\<lambda>(platform, token). (metaId, platform, token))
          (filter (\<lambda>(platform, token). platform = ProviderTypeExpo) xs)))
      = length (filter (\<lambda>(platform, token). platform = ProviderTypeExpo \<and> ValidateToken token) xs)"
  by (induction xs) auto






end
